theory Spec2Isabelle
  imports Main "HOL-Library.AList" "HOL-Library.Sublist" "HOL-Library.Multiset"
    "HOL-Library.Char_ord" "HOL-Library.List_Lexorder"
begin

section \<open>Data model of weekly-compilation.py\<close>

text \<open>
  The script keeps all its data in Python dictionaries and lists that are later written
  with \<open>json.dump\<close>, so the values are modelled as a JSON datatype. A dictionary is an
  association list: Python dictionaries keep insertion order, and \<open>AList.update\<close>
  (replace in place, or append) is what \<open>d[k] = v\<close> does.
\<close>

type_synonym path = string

datatype json =
    JNone
  | JBool bool
  | JInt int
  | JStr string
  | JList "json list"
  | JDict "(string \<times> json) list"

text \<open>Exceptions of the script, as values.\<close>

datatype error =
    PermissionError
  | KeyError string
  | TypeError
  | OSError string

fun is_dict :: "json \<Rightarrow> bool" where
  "is_dict (JDict kv) = True"
| "is_dict _ = False"

text \<open>Python truthiness, as used by \<open>if source_data and ...\<close>.\<close>

fun truthy :: "json \<Rightarrow> bool" where
  "truthy JNone = False"
| "truthy (JBool b) = b"
| "truthy (JInt n) = (n \<noteq> 0)"
| "truthy (JStr s) = (s \<noteq> [])"
| "truthy (JList xs) = (xs \<noteq> [])"
| "truthy (JDict kv) = (kv \<noteq> [])"

section \<open>Exclusivity validator\<close>

definition prohibited_spaces :: "string list" where
  "prohibited_spaces =
     [''general-space'', ''shared-space'', ''public-space'',
      ''common-infrastructure'', ''cross-space'']"

text \<open>
  \<open>str.lower()\<close> on the output of \<open>json.dumps\<close>, which is ASCII (\<open>ensure_ascii\<close> is
  left at its default): only the letters A to Z change.
\<close>

definition lower_char :: "char \<Rightarrow> char" where
  "lower_char c =
     (let n = (of_char c :: nat) in if 65 \<le> n \<and> n \<le> 90 then char_of (n + 32) else c)"

definition str_lower :: "string \<Rightarrow> string" where
  "str_lower s = map lower_char s"

text \<open>
  The \<open>for prohibited in prohibited_spaces\<close> loop with its early \<open>return False\<close>;
  \<open>prohibited in data_str\<close> is Python's substring test.
\<close>

fun scan_prohibited :: "string list \<Rightarrow> string \<Rightarrow> bool" where
  "scan_prohibited [] data_str = True"
| "scan_prohibited (prohibited # rest) data_str =
     (if sublist prohibited data_str then False else scan_prohibited rest data_str)"

text \<open>
  \<open>_validate_data_exclusivity\<close>. The serializer \<open>json.dumps\<close> belongs to the Python
  standard library and is a parameter.
\<close>

definition validate_data_exclusivity :: "(json \<Rightarrow> string) \<Rightarrow> json \<Rightarrow> bool" where
  "validate_data_exclusivity dumps data =
     (if \<not> is_dict data then True
      else scan_prohibited prohibited_spaces (str_lower (dumps data)))"

definition exclusivity_error :: json where
  "exclusivity_error = JDict [(''error'', JStr ''exclusivity_validation_failed'')]"

text \<open>
  The security validation loop of \<open>collect_framework_data\<close>: it walks the items of
  \<open>data_sources\<close> and overwrites the value of a failing source in the same dictionary.
\<close>

fun validation_loop ::
  "(json \<Rightarrow> string) \<Rightarrow> (string \<times> json) list \<Rightarrow> (string \<times> json) list \<Rightarrow> (string \<times> json) list"
where
  "validation_loop dumps [] data_sources = data_sources"
| "validation_loop dumps ((source_name, source_data) # items) data_sources =
     validation_loop dumps items
       (if truthy source_data \<and> \<not> validate_data_exclusivity dumps source_data
        then AList.update source_name exclusivity_error data_sources
        else data_sources)"

definition validate_sources :: "(json \<Rightarrow> string) \<Rightarrow> (string \<times> json) list \<Rightarrow> (string \<times> json) list" where
  "validate_sources dumps data_sources = validation_loop dumps data_sources data_sources"

text \<open>
  The wording of the specification: the serialized payload contains a marker
  case-insensitively when, at some offset, it agrees with the marker up to the case of
  letters.
\<close>

definition contains_ci :: "string \<Rightarrow> string \<Rightarrow> bool" where
  "contains_ci s marker =
     (\<exists>i. i + length marker \<le> length s \<and>
          str_lower (take (length marker) (drop i s)) = str_lower marker)"

section \<open>Bundle checksum\<close>

text \<open>
  A path below the bundle directory is the list of its components: \<open>sorted\<close> compares
  \<open>Path\<close> objects by components, lexicographically, which is the order of
  \<open>string list\<close> here. \<open>str\<close> joins the components with a slash.
\<close>

type_synonym relpath = "string list"

fun path_str :: "relpath \<Rightarrow> string" where
  "path_str [] = ''.''"
| "path_str [c] = c"
| "path_str (c # cs) = c @ ''/'' @ path_str cs"

text \<open>
  The loop of \<open>_calculate_compilation_checksum\<close>. \<open>hashlib\<close>'s \<open>update\<close> appends to
  the hashed message, so the state of the hash object is the message so far. A file that
  cannot be opened raises.
\<close>

fun checksum_loop ::
  "(relpath \<Rightarrow> bool) \<Rightarrow> (relpath \<Rightarrow> string option) \<Rightarrow> relpath list \<Rightarrow> string \<Rightarrow> error + string"
where
  "checksum_loop is_file read_bytes [] msg = Inr msg"
| "checksum_loop is_file read_bytes (file_path # rest) msg =
     (if is_file file_path then
        (case read_bytes file_path of
           None \<Rightarrow> Inl (OSError (path_str file_path))
         | Some content \<Rightarrow>
             checksum_loop is_file read_bytes rest (msg @ path_str file_path @ content))
      else checksum_loop is_file read_bytes rest msg)"

text \<open>\<open>sha256\<close> (the hex digest of a message) is a parameter; \<open>listing\<close> is what
  \<open>compilation_dir.rglob('*')\<close> yields, in the order the filesystem gives it.\<close>

definition calculate_compilation_checksum ::
  "(string \<Rightarrow> string) \<Rightarrow> (relpath \<Rightarrow> bool) \<Rightarrow> (relpath \<Rightarrow> string option) \<Rightarrow> relpath list
     \<Rightarrow> error + string"
where
  "calculate_compilation_checksum sha256 is_file read_bytes listing =
     (case checksum_loop is_file read_bytes (sort listing) [] of
        Inl e \<Rightarrow> Inl e
      | Inr msg \<Rightarrow> Inr (sha256 msg))"

section \<open>Checkpoint store\<close>

text \<open>
  The checkpoint is the dictionary \<open>{"files": {path: hash}, "timestamp": ..., "week_id": ...}\<close>.
  A file on disk holds either a complete JSON document, given by the value it parses to, or
  a partially written one, which \<open>json.load\<close> rejects. Only documents of the shape
  the script writes are represented.
\<close>

record checkpoint =
  files :: "path \<rightharpoonup> string"
  timestamp :: "string option"
  ckpt_week_id :: "string option"

datatype file_state = Complete checkpoint | Partial

type_synonym disk = "path \<rightharpoonup> file_state"

definition fresh_checkpoint :: checkpoint where
  "fresh_checkpoint = \<lparr>files = Map.empty, timestamp = None, ckpt_week_id = None\<rparr>"

text \<open>Paths of the checkpoint store are relative to the working directory.\<close>

definition checkpoint_file :: path where
  "checkpoint_file = ''last-run-checkpoint.json''"

text \<open>\<open>Path.with_suffix\<close> on a file name: the part from the last dot on is replaced, unless
  the name has no dot, starts with its only dot or ends with a dot.\<close>

definition with_suffix :: "path \<Rightarrow> string \<Rightarrow> path" where
  "with_suffix name new_suffix =
     (let ext = rev (takeWhile (\<lambda>c. c \<noteq> CHR ''.'') (rev name)) in
      if length ext < length name \<and> ext \<noteq> [] \<and> Suc (length ext) < length name
      then take (length name - Suc (length ext)) name @ new_suffix
      else name @ new_suffix)"

definition load_checkpoint :: "disk \<Rightarrow> checkpoint" where
  "load_checkpoint d =
     (case d checkpoint_file of
        None \<Rightarrow> fresh_checkpoint
      | Some Partial \<Rightarrow> fresh_checkpoint
      | Some (Complete c) \<Rightarrow> c)"

text \<open>\<open>Path.replace\<close> is \<open>rename(2)\<close>: one step that puts the source file at the target.\<close>

definition replace_file :: "path \<Rightarrow> path \<Rightarrow> disk \<Rightarrow> disk" where
  "replace_file src dst d = (d(src := None))(dst := d src)"

text \<open>Which operations of a run raise is given by the environment of the run.\<close>

record io_faults =
  init_db_fails :: bool
  mkdir_fails :: "path \<Rightarrow> bool"
  copy_fails :: "path \<Rightarrow> bool"
  manifest_write_fails :: bool
  checksum_result :: "error + string"
  db_update_fails :: bool
  audit_save_fails :: bool
  tmp_open_fails :: bool
  tmp_write_fails :: bool
  replace_fails :: bool
  rmtree_fails :: "string \<Rightarrow> bool"

text \<open>
  \<open>_save_checkpoint\<close>, as the states of the disk after each filesystem operation it
  completes: the temporary file is opened for writing, the document is written and the file
  closed, the file is moved onto the checkpoint. An operation that raises ends the method
  (the \<open>except\<close> clause only logs). A process that is interrupted leaves one of these
  states behind, or the disk as it was.
\<close>

definition save_checkpoint_steps :: "io_faults \<Rightarrow> checkpoint \<Rightarrow> disk \<Rightarrow> disk list" where
  "save_checkpoint_steps io new d =
     (let temp_file = with_suffix checkpoint_file ''.tmp'' in
      if tmp_open_fails io then []
      else d(temp_file \<mapsto> Partial) #
        (if tmp_write_fails io then []
         else d(temp_file \<mapsto> Complete new) #
           (if replace_fails io then []
            else [replace_file temp_file checkpoint_file (d(temp_file \<mapsto> Complete new))])))"

definition save_checkpoint :: "io_faults \<Rightarrow> checkpoint \<Rightarrow> disk \<Rightarrow> disk" where
  "save_checkpoint io new d = last (d # save_checkpoint_steps io new d)"

section \<open>The compiler object and the deduplication gate\<close>

definition FRAMEWORK_SPACE :: string where
  "FRAMEWORK_SPACE = ''HUMAN-AI-FRAMEWORK''"

record compiler =
  space_name :: string
  week_id :: string
  compilation_date :: int
  checkpoint :: checkpoint
  new_checkpoint :: checkpoint

text \<open>
  The filesystem a run reads: the working directory, \<open>Path.resolve\<close>, the content of
  the regular files (by resolved path; a file that cannot be opened has none) and what
  \<open>stat\<close> reports. Times are seconds.
\<close>

record filesystem =
  cwd :: path
  resolve :: "path \<Rightarrow> path"
  content :: "path \<rightharpoonup> string"
  st_size :: "path \<Rightarrow> int"
  st_mtime :: "path \<Rightarrow> int"

text \<open>Functions of the Python standard library that the script calls: the hex digest of
  SHA-256, \<open>datetime.isoformat\<close>, \<open>strftime\<close> with \<open>'%Y-W%U'\<close> and with \<open>'%Y-%m'\<close>,
  and \<open>json.dumps\<close>.\<close>

record pylib =
  sha256 :: "string \<Rightarrow> string"
  isoformat :: "int \<Rightarrow> string"
  week_of :: "int \<Rightarrow> string"
  month_of :: "int \<Rightarrow> string"
  json_dumps :: "json \<Rightarrow> string"

definition absolute :: "filesystem \<Rightarrow> path \<Rightarrow> path" where
  "absolute fs p = (if p \<noteq> [] \<and> hd p = CHR ''/'' then p else cwd fs @ ''/'' @ p)"

definition read_file :: "filesystem \<Rightarrow> path \<Rightarrow> string option" where
  "read_file fs p = content fs (resolve fs p)"

text \<open>\<open>Path.exists\<close>, for the regular files the script handles.\<close>

definition path_exists :: "filesystem \<Rightarrow> path \<Rightarrow> bool" where
  "path_exists fs p = (content fs (resolve fs p) \<noteq> None)"

definition calculate_file_checksum :: "pylib \<Rightarrow> filesystem \<Rightarrow> path \<Rightarrow> string" where
  "calculate_file_checksum lib fs file_path =
     (case read_file fs file_path of
        Some bytes \<Rightarrow> sha256 lib bytes
      | None \<Rightarrow> ''checksum_failed'')"

definition should_process_file ::
  "pylib \<Rightarrow> filesystem \<Rightarrow> compiler \<Rightarrow> path \<Rightarrow> bool \<times> compiler"
where
  "should_process_file lib fs c file_path =
     (let file_str = absolute fs file_path;
          current_checksum = calculate_file_checksum lib fs file_path;
          previous_checksum = files (checkpoint c) file_str
      in if previous_checksum = Some current_checksum then (False, c)
         else (True,
               c\<lparr>new_checkpoint :=
                   (new_checkpoint c)\<lparr>files := (files (new_checkpoint c))(file_str \<mapsto> current_checksum)\<rparr>\<rparr>))"

text \<open>\<open>WeeklyCompiler.__init__\<close>: the previous checkpoint is loaded, the new one starts
  with no files, and a space other than the framework's is refused.\<close>

definition init_compiler :: "pylib \<Rightarrow> string \<Rightarrow> int \<Rightarrow> disk \<Rightarrow> error + compiler" where
  "init_compiler lib space now d =
     (let c = \<lparr>space_name = space, week_id = week_of lib now, compilation_date = now,
               checkpoint = load_checkpoint d,
               new_checkpoint = \<lparr>files = Map.empty, timestamp = Some (isoformat lib now),
                                 ckpt_week_id = Some (week_of lib now)\<rparr>\<rparr>
      in if space \<noteq> FRAMEWORK_SPACE then Inl PermissionError else Inr c)"

section \<open>Collector\<close>

definition validate_log_framework_content :: "filesystem \<Rightarrow> path \<Rightarrow> bool" where
  "validate_log_framework_content fs log_file =
     (case read_file fs log_file of
        None \<Rightarrow> False
      | Some bytes \<Rightarrow>
          (let content_lower = str_lower (take 4096 bytes) in
           list_ex (\<lambda>indicator. sublist indicator content_lower)
             [str_lower FRAMEWORK_SPACE, ''[framework]'', ''human-ai-framework'']))"

definition validate_file_framework_content :: "filesystem \<Rightarrow> path \<Rightarrow> bool" where
  "validate_file_framework_content fs file_path =
     (case read_file fs file_path of
        None \<Rightarrow> True
      | Some bytes \<Rightarrow> sublist (str_lower FRAMEWORK_SPACE) (str_lower (take 2048 bytes)))"

definition calculate_file_hash :: "pylib \<Rightarrow> filesystem \<Rightarrow> path \<Rightarrow> string" where
  "calculate_file_hash lib fs file_path =
     (case read_file fs file_path of
        Some bytes \<Rightarrow> take 16 (sha256 lib bytes)
      | None \<Rightarrow> ''hash_failed'')"

text \<open>The file entry that the four checksum-gated collectors append; \<open>shown\<close> is the
  path as the collector writes it and \<open>extra\<close> the items only one collector adds.\<close>

definition file_entry ::
  "pylib \<Rightarrow> filesystem \<Rightarrow> path \<Rightarrow> path \<Rightarrow> (string \<times> json) list \<Rightarrow> json" where
  "file_entry lib fs file_path shown extra =
     JDict ([(''path'', JStr shown),
             (''size'', JInt (st_size fs file_path)),
             (''modified'', JStr (isoformat lib (st_mtime fs file_path))),
             (''hash'', JStr (calculate_file_hash lib fs file_path))]
            @ extra @ [(''status'', JStr ''new_or_changed'')])"

text \<open>
  The loop shared by \<open>_collect_copilot_logs\<close>, \<open>_collect_conversation_data\<close>,
  \<open>_collect_framework_configs\<close> and \<open>_collect_exclusive_content\<close>: a candidate that
  passes the collector's own filter goes through the gate and is either appended to the
  files or counted as skipped.
\<close>

fun collect_loop ::
  "pylib \<Rightarrow> filesystem \<Rightarrow> (path \<Rightarrow> bool) \<Rightarrow> (path \<Rightarrow> json) \<Rightarrow> path list
     \<Rightarrow> json list \<times> nat \<times> compiler \<Rightarrow> json list \<times> nat \<times> compiler"
where
  "collect_loop lib fs keep entry [] acc = acc"
| "collect_loop lib fs keep entry (file_path # rest) (found, skipped_count, c) =
     (if keep file_path then
        (case should_process_file lib fs c file_path of
           (True, c') \<Rightarrow>
             collect_loop lib fs keep entry rest (found @ [entry file_path], skipped_count, c')
         | (False, c') \<Rightarrow>
             collect_loop lib fs keep entry rest (found, Suc skipped_count, c'))
      else collect_loop lib fs keep entry rest (found, skipped_count, c))"

text \<open>What the directory scans of one run yield, in the order the filesystem gives it.\<close>

record listing =
  logs_dir_exists :: bool
  log_glob :: "path list"
  conversation_glob :: "path list"
  config_glob :: "path list"
  exclusive_rglob :: "path list"
  regular_file :: "path \<Rightarrow> bool"
  spaces :: "(string \<times> path \<times> (string + (string \<times> json) list)) list option"
  system_info :: json
  system_metrics :: json

fun entry_size :: "json \<Rightarrow> int" where
  "entry_size (JDict kv) = (case map_of kv ''size'' of Some (JInt n) \<Rightarrow> n | _ \<Rightarrow> 0)"
| "entry_size _ = 0"

definition collect_copilot_logs :: "pylib \<Rightarrow> filesystem \<Rightarrow> listing \<Rightarrow> compiler \<Rightarrow> json \<times> compiler" where
  "collect_copilot_logs lib fs ls c =
     (if \<not> logs_dir_exists ls
      then (JDict [(''files'', JList []), (''total_size'', JInt 0),
                   (''note'', JStr ''logs_directory_not_found'')], c)
      else
        (let week_ago = compilation_date c - 7 * 86400 in
         case collect_loop lib fs
                (\<lambda>p. st_mtime fs p \<ge> week_ago \<and> validate_log_framework_content fs p)
                (\<lambda>p. file_entry lib fs p p []) (log_glob ls) ([], 0, c) of
           (log_files, skipped_count, c') \<Rightarrow>
             (JDict [(''files'', JList log_files),
                     (''total_size'', JInt (sum_list (map entry_size log_files))),
                     (''files_skipped'', JInt (int skipped_count)),
                     (''collection_date'', JStr (isoformat lib (compilation_date c))),
                     (''week_range'', JStr (isoformat lib week_ago @ '' to ''
                                           @ isoformat lib (compilation_date c)))], c')))"

definition collect_conversation_data :: "pylib \<Rightarrow> filesystem \<Rightarrow> listing \<Rightarrow> compiler \<Rightarrow> json \<times> compiler" where
  "collect_conversation_data lib fs ls c =
     (case collect_loop lib fs (validate_file_framework_content fs)
             (\<lambda>p. file_entry lib fs p p []) (conversation_glob ls) ([], 0, c) of
        (conversation_files, skipped_count, c') \<Rightarrow>
          (JDict [(''files'', JList conversation_files),
                  (''files_skipped'', JInt (int skipped_count)),
                  (''patterns_searched'',
                     JList [JStr ''conversation-*.json'', JStr ''chat-history-*.json'',
                            JStr ''session-*.json'']),
                  (''collection_date'', JStr (isoformat lib (compilation_date c)))], c'))"

definition collect_framework_configs :: "pylib \<Rightarrow> filesystem \<Rightarrow> listing \<Rightarrow> compiler \<Rightarrow> json \<times> compiler" where
  "collect_framework_configs lib fs ls c =
     (case collect_loop lib fs (path_exists fs)
             (\<lambda>p. file_entry lib fs p p [(''type'', JStr ''framework_config'')])
             (config_glob ls) ([], 0, c) of
        (config_files, skipped_count, c') \<Rightarrow>
          (JDict [(''files'', JList config_files),
                  (''files_skipped'', JInt (int skipped_count)),
                  (''collection_date'', JStr (isoformat lib (compilation_date c)))], c'))"

definition relative_to_cwd :: "filesystem \<Rightarrow> path \<Rightarrow> path" where
  "relative_to_cwd fs p = drop (Suc (length (cwd fs))) p"

definition collect_exclusive_content :: "pylib \<Rightarrow> filesystem \<Rightarrow> listing \<Rightarrow> compiler \<Rightarrow> json \<times> compiler" where
  "collect_exclusive_content lib fs ls c =
     (case collect_loop lib fs (regular_file ls)
             (\<lambda>p. file_entry lib fs p (relative_to_cwd fs p) [])
             (exclusive_rglob ls) ([], 0, c) of
        (exclusive_files, skipped_count, c') \<Rightarrow>
          (JDict [(''files'', JList exclusive_files),
                  (''files_skipped'', JInt (int skipped_count)),
                  (''directories_scanned'',
                     JList [JStr ''human-ai-framework'', JStr ''framework-exclusive'']),
                  (''collection_date'', JStr (isoformat lib (compilation_date c)))], c'))"

text \<open>
  \<open>_synchronize_objectives\<close>. Each space directory that has an \<open>objectives.json\<close> comes
  with what reading it gives: the message of the exception, or the JSON object (a document
  that is not an object counts under the former). The field \<open>spaceName\<close> is injected when
  missing; the filesystem of the model is the one after the file has been written back.
  These entries do not go through the gate.
\<close>

fun objectives_loop ::
  "pylib \<Rightarrow> filesystem \<Rightarrow> (string \<times> path \<times> (string + (string \<times> json) list)) list
     \<Rightarrow> (string \<times> json) list \<times> json list \<Rightarrow> (string \<times> json) list \<times> json list"
where
  "objectives_loop lib fs [] acc = acc"
| "objectives_loop lib fs ((space, objectives_file, Inr objectives_content) # rest)
       (objectives_data, synchronized_files) =
     (let injected = (if map_of objectives_content ''spaceName'' = None
                      then AList.update ''spaceName'' (JStr space) objectives_content
                      else objectives_content)
      in objectives_loop lib fs rest
           (AList.update space (JDict injected) objectives_data,
            synchronized_files @
              [JDict [(''space'', JStr space),
                      (''path'', JStr objectives_file),
                      (''size'', JInt (st_size fs objectives_file)),
                      (''modified'', JStr (isoformat lib (st_mtime fs objectives_file))),
                      (''hash'', JStr (calculate_file_hash lib fs objectives_file)),
                      (''spaceName_injected'', JBool True),
                      (''status'', JStr ''processed'')]]))"
| "objectives_loop lib fs ((space, objectives_file, Inl e) # rest)
       (objectives_data, synchronized_files) =
     objectives_loop lib fs rest
       (objectives_data,
        synchronized_files @
          [JDict [(''space'', JStr space),
                  (''path'', JStr objectives_file),
                  (''error'', JStr e),
                  (''status'', JStr ''failed'')]])"

definition synchronize_objectives :: "pylib \<Rightarrow> filesystem \<Rightarrow> listing \<Rightarrow> compiler \<Rightarrow> json" where
  "synchronize_objectives lib fs ls c =
     (case spaces ls of
        None \<Rightarrow>
          JDict [(''objectives'', JDict []), (''files'', JList []),
                 (''note'', JStr ''Perplexity spaces directory not found''),
                 (''collection_date'', JStr (isoformat lib (compilation_date c)))]
      | Some dirs \<Rightarrow>
          (case objectives_loop lib fs dirs ([], []) of
             (objectives_data, synchronized_files) \<Rightarrow>
               JDict [(''objectives'', JDict objectives_data),
                      (''files'', JList synchronized_files),
                      (''total_spaces'', JInt (int (length objectives_data))),
                      (''collection_date'', JStr (isoformat lib (compilation_date c)))]))"

definition collect_weekly_metrics :: "pylib \<Rightarrow> filesystem \<Rightarrow> listing \<Rightarrow> compiler \<Rightarrow> json" where
  "collect_weekly_metrics lib fs ls c =
     JDict [(''compilation_week'', JStr (week_id c)),
            (''framework_space'', JStr FRAMEWORK_SPACE),
            (''system_info'', system_info ls),
            (''collection_timestamp'', JStr (isoformat lib (compilation_date c))),
            (''system_metrics'', system_metrics ls)]"

text \<open>\<open>collect_framework_data\<close>: the six sources in the order of the dictionary literal,
  the gate's state passing from one collector to the next, then the validation loop.\<close>

definition collect_framework_data ::
  "pylib \<Rightarrow> filesystem \<Rightarrow> listing \<Rightarrow> compiler \<Rightarrow> (string \<times> json) list \<times> compiler" where
  "collect_framework_data lib fs ls c0 =
     (case collect_copilot_logs lib fs ls c0 of (copilot_logs, c1) \<Rightarrow>
      case collect_conversation_data lib fs ls c1 of (conversation_data, c2) \<Rightarrow>
      case collect_framework_configs lib fs ls c2 of (framework_configs, c3) \<Rightarrow>
      case collect_exclusive_content lib fs ls c3 of (exclusive_content, c4) \<Rightarrow>
        (validate_sources (json_dumps lib)
           [(''copilot_logs'', copilot_logs),
            (''conversation_data'', conversation_data),
            (''framework_configs'', framework_configs),
            (''weekly_metrics'', collect_weekly_metrics lib fs ls c3),
            (''exclusive_content'', exclusive_content),
            (''objectives_sync'', synchronize_objectives lib fs ls c4)], c4))"

section \<open>Compiler\<close>

text \<open>\<open>Path.name\<close> and the \<open>/\<close> operator, on the strings \<open>str(Path)\<close> gives
  (no trailing slash); the right operand of \<open>/\<close> is a relative name.\<close>

definition path_name :: "path \<Rightarrow> string" where
  "path_name p = rev (takeWhile (\<lambda>c. c \<noteq> CHR ''/'') (rev p))"

definition joinpath :: "path \<Rightarrow> string \<Rightarrow> path" where
  "joinpath dir name = (if name = [] then dir else dir @ ''/'' @ name)"

text \<open>\<open>shutil.copy2\<close> gives the target the content of the source.\<close>

definition copy2 :: "filesystem \<Rightarrow> path \<Rightarrow> path \<Rightarrow> filesystem" where
  "copy2 fs src dst = fs\<lparr>content := (content fs)(resolve fs dst := content fs (resolve fs src))\<rparr>"

text \<open>The variables of the copying loops: the filesystem, the calls of \<open>copy2\<close> made so
  far (source and target), and \<open>copied_files\<close>, \<open>total_files\<close>, \<open>total_size\<close>.\<close>

record copy_state =
  cs_fs :: filesystem
  copies :: "(path \<times> path) list"
  copied_files :: "json list"
  total_files :: nat
  total_size :: int

text \<open>The body of \<open>for file_info in source_data['files']\<close>. An exception ends the run
  with the state reached. A \<open>file_info\<close> that is no dictionary is counted as a type
  error; the collectors produce none.\<close>

definition process_file_info ::
  "io_faults \<Rightarrow> string \<Rightarrow> path \<Rightarrow> json \<Rightarrow> copy_state \<Rightarrow> error option \<times> copy_state"
where
  "process_file_info io source_name source_dir file_info st =
     (case file_info of
        JDict kv \<Rightarrow>
          if map_of kv ''error'' \<noteq> None then (None, st)
          else if (case map_of kv ''status'' of None \<Rightarrow> JStr ''unknown'' | Some status \<Rightarrow> status)
                    \<notin> set [JStr ''new_or_changed'', JStr ''processed'']
          then (None, st)
          else
            (case map_of kv ''path'' of
               None \<Rightarrow> (Some (KeyError ''path''), st)
             | Some (JStr src_path) \<Rightarrow>
                 if path_exists (cs_fs st) src_path \<and> map_of kv ''size'' \<noteq> None then
                   (let dst_path = joinpath source_dir (path_name src_path) in
                    if resolve (cs_fs st) src_path = resolve (cs_fs st) dst_path then (None, st)
                    else if copy_fails io src_path then (Some (OSError src_path), st)
                    else
                      (let st1 = st\<lparr>cs_fs := copy2 (cs_fs st) src_path dst_path,
                                     copies := copies st @ [(src_path, dst_path)]\<rparr>
                       in case map_of kv ''hash'' of
                            None \<Rightarrow> (Some (KeyError ''hash''), st1)
                          | Some h \<Rightarrow>
                              (let st2 = st1\<lparr>copied_files := copied_files st1 @
                                   [JDict [(''original_path'', JStr src_path),
                                           (''compiled_path'',
                                              JStr (joinpath source_name (path_name src_path))),
                                           (''size'', the (map_of kv ''size'')),
                                           (''hash'', h)]],
                                   total_files := Suc (total_files st1)\<rparr>
                               in case map_of kv ''size'' of
                                    Some (JInt n) \<Rightarrow> (None, st2\<lparr>total_size := total_size st2 + n\<rparr>)
                                  | _ \<Rightarrow> (Some TypeError, st2))))
                 else (None, st)
             | Some _ \<Rightarrow> (Some TypeError, st))
      | _ \<Rightarrow> (Some TypeError, st))"

fun process_files ::
  "io_faults \<Rightarrow> string \<Rightarrow> path \<Rightarrow> json list \<Rightarrow> copy_state \<Rightarrow> error option \<times> copy_state"
where
  "process_files io source_name source_dir [] st = (None, st)"
| "process_files io source_name source_dir (file_info # rest) st =
     (case process_file_info io source_name source_dir file_info st of
        (Some e, st') \<Rightarrow> (Some e, st')
      | (None, st') \<Rightarrow> process_files io source_name source_dir rest st')"

text \<open>The loop over \<open>data_sources.items()\<close>; \<open>man\<close> is \<open>manifest['data_sources']\<close>.
  A value of \<open>files\<close> that is no list is counted as a type error.\<close>

fun process_sources ::
  "io_faults \<Rightarrow> path \<Rightarrow> (string \<times> json) list \<Rightarrow> copy_state \<times> (string \<times> json) list
     \<Rightarrow> error option \<times> copy_state \<times> (string \<times> json) list"
where
  "process_sources io compilation_dir [] (st, man) = (None, st, man)"
| "process_sources io compilation_dir ((source_name, source_data) # rest) (st, man) =
     (case source_data of
        JDict kv \<Rightarrow>
          (case map_of kv ''files'' of
             None \<Rightarrow> process_sources io compilation_dir rest (st, man)
           | Some (JList file_infos) \<Rightarrow>
               (let source_dir = joinpath compilation_dir source_name in
                if mkdir_fails io source_dir then (Some (OSError source_dir), st, man)
                else
                  (case process_files io source_name source_dir file_infos
                          (st\<lparr>copied_files := []\<rparr>) of
                     (Some e, st') \<Rightarrow> (Some e, st', man)
                   | (None, st') \<Rightarrow>
                       process_sources io compilation_dir rest
                         (st',
                          AList.update source_name
                            (JDict [(''files_count'', JInt (int (length (copied_files st')))),
                                    (''total_size'',
                                       JInt (sum_list (map entry_size (copied_files st')))),
                                    (''files'', JList (copied_files st'))])
                            man)))
           | Some _ \<Rightarrow> (Some TypeError, st, man))
      | _ \<Rightarrow> process_sources io compilation_dir rest (st, man))"

text \<open>What a run writes: the checkpoint store, the table \<open>compilations\<close> (by week), the
  bundle directories that exist (by week), the manifests written and the copies made.\<close>

record tracking_row =
  row_date :: string
  files_processed :: nat
  total_size_bytes :: int
  row_checksum :: string
  metadata :: string

record world =
  ckpt_disk :: disk
  db :: "(string \<times> tracking_row) list"
  bundle_dirs :: "string list"
  manifests :: "(path \<times> json) list"
  copy_log :: "(path \<times> path) list"

definition WEEKS_TO_RETAIN :: int where
  "WEEKS_TO_RETAIN = 12"

definition framework_hash :: "pylib \<Rightarrow> int \<Rightarrow> string" where
  "framework_hash lib now = take 16 (sha256 lib (FRAMEWORK_SPACE @ ''-'' @ month_of lib now))"

definition make_manifest :: "pylib \<Rightarrow> compiler \<Rightarrow> (string \<times> json) list \<Rightarrow> json" where
  "make_manifest lib c man =
     JDict [(''week_id'', JStr (week_id c)),
            (''compilation_date'', JStr (isoformat lib (compilation_date c))),
            (''framework_space'', JStr FRAMEWORK_SPACE),
            (''security_hash'', JStr (framework_hash lib (compilation_date c))),
            (''data_sources'', JDict man),
            (''exclusivity_verified'', JBool True)]"

text \<open>
  \<open>create_compilation\<close>. The value of \<open>_calculate_compilation_checksum\<close> on the bundle
  directory is given by the environment of the run (the function itself is modelled
  above). The audit log is not part of the model beyond the failure of writing it.
\<close>

definition create_compilation ::
  "pylib \<Rightarrow> io_faults \<Rightarrow> compiler \<Rightarrow> (string \<times> json) list \<Rightarrow> filesystem \<Rightarrow> world
     \<Rightarrow> (error + path) \<times> filesystem \<times> world"
where
  "create_compilation lib io c data_sources fs w =
     (let compilation_dir =
            joinpath (joinpath (cwd fs) ''human-ai-framework'') (''week-'' @ week_id c)
      in
      if mkdir_fails io compilation_dir then (Inl (OSError compilation_dir), fs, w)
      else
        (let w1 = w\<lparr>bundle_dirs := List.insert (week_id c) (bundle_dirs w)\<rparr> in
         case process_sources io compilation_dir data_sources
                (\<lparr>cs_fs = fs, copies = [], copied_files = [], total_files = 0, total_size = 0\<rparr>, [])
         of
           (Some e, st, man) \<Rightarrow> (Inl e, cs_fs st, w1\<lparr>copy_log := copy_log w1 @ copies st\<rparr>)
         | (None, st, man) \<Rightarrow>
             (let w2 = w1\<lparr>copy_log := copy_log w1 @ copies st\<rparr>;
                  manifest = make_manifest lib c man;
                  manifest_path = joinpath compilation_dir ''manifest.json''
              in
              if manifest_write_fails io then (Inl (OSError manifest_path), cs_fs st, w2)
              else
                (let w3 = w2\<lparr>manifests := manifests w2 @ [(manifest_path, manifest)]\<rparr> in
                 case checksum_result io of
                   Inl e \<Rightarrow> (Inl e, cs_fs st, w3)
                 | Inr compilation_checksum \<Rightarrow>
                     if db_update_fails io then (Inl (OSError ''compilations.db''), cs_fs st, w3)
                     else
                       (let w4 = w3\<lparr>db := AList.update (week_id c)
                                      \<lparr>row_date = isoformat lib (compilation_date c),
                                       files_processed = total_files st,
                                       total_size_bytes = total_size st,
                                       row_checksum = compilation_checksum,
                                       metadata = json_dumps lib manifest\<rparr> (db w3)\<rparr>
                        in
                        if audit_save_fails io then (Inl (OSError ''audit''), cs_fs st, w4)
                        else
                          (Inr compilation_dir, cs_fs st,
                           w4\<lparr>ckpt_disk :=
                                 save_checkpoint io (new_checkpoint c) (ckpt_disk w4)\<rparr>))))))"

section \<open>Retention and the entry point\<close>

text \<open>
  \<open>cleanup_old_compilations\<close>: the weeks whose row is dated before the cutoff (SQLite
  compares the ISO strings bytewise), then for each the directory and the row. There is no
  handler around \<open>shutil.rmtree\<close>: when it raises, the loop and the method end there.
\<close>

fun cleanup_loop :: "io_faults \<Rightarrow> string list \<Rightarrow> world \<Rightarrow> error option \<times> world" where
  "cleanup_loop io [] w = (None, w)"
| "cleanup_loop io (week # rest) w =
     (if week \<in> set (bundle_dirs w) then
        (if rmtree_fails io week then (Some (OSError (''week-'' @ week)), w)
         else cleanup_loop io rest
                (w\<lparr>bundle_dirs := removeAll week (bundle_dirs w),
                   db := AList.delete week (db w)\<rparr>))
      else cleanup_loop io rest (w\<lparr>db := AList.delete week (db w)\<rparr>))"

definition old_compilations :: "pylib \<Rightarrow> compiler \<Rightarrow> world \<Rightarrow> string list" where
  "old_compilations lib c w =
     (let cutoff_date = compilation_date c - WEEKS_TO_RETAIN * 7 * 86400 in
      map fst (filter (\<lambda>(week, row). row_date row < isoformat lib cutoff_date) (db w)))"

definition cleanup_old_compilations ::
  "pylib \<Rightarrow> io_faults \<Rightarrow> compiler \<Rightarrow> world \<Rightarrow> error option \<times> world" where
  "cleanup_old_compilations lib io c w = cleanup_loop io (old_compilations lib c w) w"

text \<open>How the process ends: the summary printed and exit status 0, or an error logged
  and exit status 1.\<close>

datatype exit = Exit0 json | Exit1 error

fun count_files :: "json \<Rightarrow> int" where
  "count_files (JDict kv) = (case map_of kv ''files'' of Some (JList xs) \<Rightarrow> int (length xs) | _ \<Rightarrow> 0)"
| "count_files _ = 0"

definition summary :: "compiler \<Rightarrow> path \<Rightarrow> (string \<times> json) list \<Rightarrow> json" where
  "summary c compilation_dir data_sources =
     JDict [(''status'', JStr ''success''),
            (''week_id'', JStr (week_id c)),
            (''compilation_dir'', JStr compilation_dir),
            (''space_verified'', JStr FRAMEWORK_SPACE),
            (''files_processed'', JInt (sum_list (map (count_files \<circ> snd) data_sources)))]"

definition main ::
  "pylib \<Rightarrow> io_faults \<Rightarrow> listing \<Rightarrow> string \<Rightarrow> int \<Rightarrow> filesystem \<Rightarrow> world
     \<Rightarrow> exit \<times> filesystem \<times> world"
where
  "main lib io ls space now fs w =
     (case init_compiler lib space now (ckpt_disk w) of
        Inl e \<Rightarrow> (Exit1 e, fs, w)
      | Inr c0 \<Rightarrow>
          if init_db_fails io then (Exit1 (OSError ''compilations.db''), fs, w)
          else
            (case collect_framework_data lib fs ls c0 of
               (data_sources, c) \<Rightarrow>
                 (case create_compilation lib io c data_sources fs w of
                    (Inl e, fs', w') \<Rightarrow> (Exit1 e, fs', w')
                  | (Inr compilation_dir, fs', w') \<Rightarrow>
                      (case cleanup_old_compilations lib io c w' of
                         (Some e, w'') \<Rightarrow> (Exit1 e, fs', w'')
                       | (None, w'') \<Rightarrow>
                           (Exit0 (summary c compilation_dir data_sources), fs', w'')))))"


section \<open>Auxiliary notions and concrete inputs\<close>


definition extends :: "compiler \<Rightarrow> compiler \<Rightarrow> bool" where
  "extends c c' =
     (checkpoint c' = checkpoint c \<and> compilation_date c' = compilation_date c \<and>
      week_id c' = week_id c \<and>
      dom (files (new_checkpoint c)) \<subseteq> dom (files (new_checkpoint c')))"

text \<open>Notions used to state what the copying loops do: a call of \<open>copy2\<close> is
  justified by an eligible entry of the list, recorded in a list of manifest entries,
  entered in the manifest under a source, and comes from a source of the run.\<close>

definition justified :: "(path \<Rightarrow> path) \<Rightarrow> path \<Rightarrow> json list \<Rightarrow> path \<times> path \<Rightarrow> bool" where
  "justified res source_dir file_infos cp =
     (\<exists>kv. JDict kv \<in> set file_infos \<and> map_of kv ''path'' = Some (JStr (fst cp)) \<and>
           map_of kv ''error'' = None \<and>
           (map_of kv ''status'' = Some (JStr ''new_or_changed'') \<or>
            map_of kv ''status'' = Some (JStr ''processed'')) \<and>
           snd cp = joinpath source_dir (path_name (fst cp)) \<and>
           res (fst cp) \<noteq> res (snd cp))"

definition recorded :: "string \<Rightarrow> json list \<Rightarrow> path \<times> path \<Rightarrow> bool" where
  "recorded source_name recs cp =
     (\<exists>size h. JDict [(''original_path'', JStr (fst cp)),
                      (''compiled_path'', JStr (joinpath source_name (path_name (fst cp)))),
                      (''size'', size), (''hash'', h)] \<in> set recs)"

definition in_manifest :: "string \<Rightarrow> (string \<times> json) list \<Rightarrow> path \<times> path \<Rightarrow> bool" where
  "in_manifest source_name man cp =
     (\<exists>recs. map_of man source_name =
               Some (JDict [(''files_count'', JInt (int (length recs))),
                            (''total_size'', JInt (sum_list (map entry_size recs))),
                            (''files'', JList recs)]) \<and>
             recorded source_name recs cp)"

definition from_source ::
  "(path \<Rightarrow> path) \<Rightarrow> path \<Rightarrow> (string \<times> json) list \<Rightarrow> string \<Rightarrow> path \<times> path \<Rightarrow> bool" where
  "from_source res compilation_dir data_sources source_name cp =
     (\<exists>kvs file_infos. (source_name, JDict kvs) \<in> set data_sources \<and>
        map_of kvs ''files'' = Some (JList file_infos) \<and>
        justified res (joinpath compilation_dir source_name) file_infos cp)"

text \<open>A serializer that agrees with \<open>json.dumps\<close> on the three payloads below, and two
  collected sources, the first of which names a foreign space.\<close>

definition demo_dumps :: "json \<Rightarrow> string" where
  \<open>demo_dumps j =
     (if j = JDict [(''files'', JList []), (''note'', JStr ''from Shared-Space'')]
      then ''{"files": [], "note": "from Shared-Space"}''
      else if j = JDict [(''files'', JList []), (''files_skipped'', JInt 0)]
      then ''{"files": [], "files_skipped": 0}''
      else ''{}'')\<close>

definition demo_sources :: "(string \<times> json) list" where
  "demo_sources =
     [(''conversation_data'', JDict [(''files'', JList []), (''note'', JStr ''from Shared-Space'')]),
      (''framework_configs'', JDict [(''files'', JList []), (''files_skipped'', JInt 0)])]"

text \<open>A bundle directory with three files, and two orders in which \<open>rglob\<close> may list it
  (the directory \<open>copilot_logs\<close> itself is listed too).\<close>

definition demo_bundle :: "relpath \<rightharpoonup> string" where
  "demo_bundle =
     [[''manifest.json''] \<mapsto> ''{}'',
      [''copilot_logs'', ''a.log''] \<mapsto> ''[FRAMEWORK] started'',
      [''copilot_logs'', ''b.log''] \<mapsto> ''[FRAMEWORK] done'']"

definition listing_a :: "relpath list" where
  "listing_a =
     [[''manifest.json''], [''copilot_logs''], [''copilot_logs'', ''b.log''],
      [''copilot_logs'', ''a.log'']]"

definition listing_b :: "relpath list" where
  "listing_b =
     [[''copilot_logs'', ''a.log''], [''copilot_logs''], [''manifest.json''],
      [''copilot_logs'', ''b.log'']]"

text \<open>
  A small installation: one recent framework log, one objectives file of another space, a
  file that already sits in this week's bundle, one bundle older than the retention
  window, and no checkpoint yet. The library stand-ins prefix the message instead of
  hashing it and know two dates.
\<close>

definition demo_lib :: pylib where
  "demo_lib =
     \<lparr>sha256 = (\<lambda>s. ''sha:'' @ s),
      isoformat = (\<lambda>t. if t < 8000000 then ''2025-07-26T09:00:00'' else ''2025-10-18T09:00:00''),
      week_of = (\<lambda>t. ''2025-W41''),
      month_of = (\<lambda>t. ''2025-10''),
      json_dumps = (\<lambda>j. ''{}'')\<rparr>"

definition demo_fs :: filesystem where
  "demo_fs =
     \<lparr>cwd = ''/w'', resolve = (\<lambda>p. p),
      content = [''/w/logs/a.log'' \<mapsto> ''[FRAMEWORK] started'',
                 ''/p/s1/objectives.json'' \<mapsto> ''{}'',
                 ''/w/human-ai-framework/week-2025-W41/exclusive_content/x.json'' \<mapsto> ''{}''],
      st_size = (\<lambda>p. 19), st_mtime = (\<lambda>p. 9999000)\<rparr>"

definition demo_ls :: listing where
  "demo_ls =
     \<lparr>logs_dir_exists = True, log_glob = [''/w/logs/a.log''],
      conversation_glob = [], config_glob = [], exclusive_rglob = [],
      regular_file = (\<lambda>p. True),
      spaces = Some [(''s1'', ''/p/s1/objectives.json'', Inr [(''goal'', JStr ''ship'')])],
      system_info = JDict [], system_metrics = JDict []\<rparr>"

definition demo_io :: io_faults where
  "demo_io =
     \<lparr>init_db_fails = False, mkdir_fails = (\<lambda>p. False), copy_fails = (\<lambda>p. False),
      manifest_write_fails = False, checksum_result = Inr ''c0ffee'', db_update_fails = False,
      audit_save_fails = False, tmp_open_fails = False, tmp_write_fails = False,
      replace_fails = False, rmtree_fails = (\<lambda>week. False)\<rparr>"

definition demo_world :: world where
  "demo_world =
     \<lparr>ckpt_disk = Map.empty,
      db = [(''2025-W20'', \<lparr>row_date = ''2025-05-24T09:00:00'', files_processed = 0,
                              total_size_bytes = 0, row_checksum = ''00'', metadata = ''{}''\<rparr>)],
      bundle_dirs = [''2025-W20''], manifests = [], copy_log = []\<rparr>"

text \<open>The checkpoint a first run leaves, the same installation with that checkpoint on
  disk, and the checkpoint an unchanged second run builds.\<close>

definition demo_old :: checkpoint where
  "demo_old =
     \<lparr>files = [''/w/logs/a.log'' \<mapsto> ''sha:[FRAMEWORK] started''],
      timestamp = Some ''2025-10-11T09:00:00'', ckpt_week_id = Some ''2025-W40''\<rparr>"

definition demo_new :: checkpoint where
  "demo_new =
     \<lparr>files = Map.empty, timestamp = Some ''2025-10-18T09:00:00'',
      ckpt_week_id = Some ''2025-W41''\<rparr>"

definition demo_disk :: disk where
  "demo_disk = [checkpoint_file \<mapsto> Complete demo_old]"

definition demo_world_tracked :: world where
  "demo_world_tracked = demo_world\<lparr>ckpt_disk := demo_disk\<rparr>"

text \<open>The compiler object of a first run on this installation, and the one of a second run
  that loads what the first run saved.\<close>

definition demo_c1 :: compiler where
  "demo_c1 =
     \<lparr>space_name = FRAMEWORK_SPACE, week_id = ''2025-W41'', compilation_date = 10000000,
      checkpoint = fresh_checkpoint, new_checkpoint = demo_new\<rparr>"


text \<open>Collected sources with an eligible entry, an entry of another status, an entry that
  is already at its destination, a failed entry and a source that failed validation.\<close>

definition demo_entries :: "(string \<times> json) list" where
  "demo_entries =
     [(''copilot_logs'',
         JDict [(''files'',
           JList [JDict [(''path'', JStr ''/w/logs/a.log''), (''size'', JInt 19),
                         (''hash'', JStr ''sha:[FRAMEWORK] ''),
                         (''status'', JStr ''new_or_changed'')],
                  JDict [(''path'', JStr ''/w/logs/a.log''), (''size'', JInt 19),
                         (''hash'', JStr ''sha:[FRAMEWORK] ''),
                         (''status'', JStr ''unchanged'')]])]),
      (''exclusive_content'',
         JDict [(''files'',
           JList [JDict [(''path'',
                           JStr ''/w/human-ai-framework/week-2025-W41/exclusive_content/x.json''),
                         (''size'', JInt 2), (''hash'', JStr ''sha:{}''),
                         (''status'', JStr ''new_or_changed'')]])]),
      (''objectives_sync'',
         JDict [(''files'',
           JList [JDict [(''space'', JStr ''s1''), (''path'', JStr ''/p/s1/objectives.json''),
                         (''error'', JStr ''Expecting value''),
                         (''status'', JStr ''failed'')]])]),
      (''conversation_data'', exclusivity_error)]"




section \<open>Properties of the exclusivity validator\<close>

lemma scan_prohibited_iff: "scan_prohibited ps s = (\<not> (\<exists>p\<in>set ps. sublist p s))"
  by (induction ps) auto

lemma sublist_offset:
  "sublist xs ys \<longleftrightarrow> (\<exists>i. i + length xs \<le> length ys \<and> take (length xs) (drop i ys) = xs)"
proof
  assume "sublist xs ys"
  then obtain ps ss where "ys = ps @ xs @ ss" by (auto simp: sublist_def)
  then have "length ps + length xs \<le> length ys \<and> take (length xs) (drop (length ps) ys) = xs"
    by simp
  then show "\<exists>i. i + length xs \<le> length ys \<and> take (length xs) (drop i ys) = xs" by blast
next
  assume "\<exists>i. i + length xs \<le> length ys \<and> take (length xs) (drop i ys) = xs"
  then obtain i where i: "i + length xs \<le> length ys" "take (length xs) (drop i ys) = xs" by blast
  have "ys = take i ys @ drop i ys" by simp
  also have "drop i ys = take (length xs) (drop i ys) @ drop (length xs) (drop i ys)"
    by (simp only: append_take_drop_id)
  finally have "ys = take i ys @ xs @ drop (length xs) (drop i ys)"
    using i(2) by simp
  then show "sublist xs ys" unfolding sublist_def by blast
qed

lemma contains_ci_sublist:
  "str_lower m = m \<Longrightarrow> sublist m (str_lower s) = contains_ci s m"
  unfolding sublist_offset contains_ci_def str_lower_def
  by (simp add: take_map drop_map)

lemma prohibited_lower: "m \<in> set prohibited_spaces \<Longrightarrow> str_lower m = m"
  by (auto simp: prohibited_spaces_def str_lower_def lower_char_def)

lemma update_keys_same: "k \<in> fst ` set al \<Longrightarrow> map fst (AList.update k v al) = map fst al"
  by (simp add: update_keys)

lemma validation_loop_keys:
  "fst ` set items \<subseteq> fst ` set ds \<Longrightarrow> map fst (validation_loop dumps items ds) = map fst ds"
proof (induction items arbitrary: ds)
  case Nil
  then show ?case by simp
next
  case (Cons it items)
  obtain n d where it: "it = (n, d)" by (cases it)
  let ?ds' = "if truthy d \<and> \<not> validate_data_exclusivity dumps d
        then AList.update n exclusivity_error ds else ds"
  from Cons.prems it have n: "n \<in> fst ` set ds" by auto
  then have keys: "map fst ?ds' = map fst ds" by (simp add: update_keys_same)
  then have "fst ` set ?ds' = fst ` set ds" by (metis list.set_map)
  with Cons.prems have "fst ` set items \<subseteq> fst ` set ?ds'" by auto
  from Cons.IH[OF this] keys it show ?case by simp
qed

lemma validation_loop_lookup:
  "distinct (map fst items) \<Longrightarrow>
   map_of (validation_loop dumps items ds) n =
     (case map_of items n of
        None \<Rightarrow> map_of ds n
      | Some d \<Rightarrow> if truthy d \<and> \<not> validate_data_exclusivity dumps d
                 then Some exclusivity_error else map_of ds n)"
proof (induction items arbitrary: ds)
  case Nil
  then show ?case by simp
next
  case (Cons it items)
  obtain k d where it: "it = (k, d)" by (cases it)
  from Cons.prems it have dist: "distinct (map fst items)" and k: "k \<notin> fst ` set items" by auto
  from k have none: "map_of items k = None" by (simp add: map_of_eq_None_iff)
  show ?case
    using Cons.IH[OF dist] it none
    by (auto simp: update_conv' split: option.splits)
qed

lemma validate_falsy:
  assumes "dumps (JDict []) = ''{}''" and "\<not> truthy d"
  shows "validate_data_exclusivity dumps d"
proof (cases d)
  case (JDict kv)
  with assms show ?thesis
    by (simp add: validate_data_exclusivity_def prohibited_spaces_def str_lower_def lower_char_def
          sublist_code)
qed (simp_all add: validate_data_exclusivity_def)

text \<open>
  Claim C6. For a dictionary payload the validator returns false exactly when the
  serialized payload contains one of the five denylisted markers, case-insensitively. The
  validation loop of the collector keeps the sources and their order, replaces the record
  of every source that fails validation by \<open>{'error': 'exclusivity_validation_failed'}\<close>
  and leaves every other record as it was; nothing in it raises.
\<close>

theorem exclusivity_validation:
  assumes empty: "dumps (JDict []) = ''{}''"
    and keys: "distinct (map fst data_sources)"
  shows "(\<forall>kv. validate_data_exclusivity dumps (JDict kv) =
            (\<not> (\<exists>marker\<in>set prohibited_spaces. contains_ci (dumps (JDict kv)) marker))) \<and>
         map fst (validate_sources dumps data_sources) = map fst data_sources \<and>
         (\<forall>(name, src)\<in>set data_sources.
            map_of (validate_sources dumps data_sources) name =
              Some (if validate_data_exclusivity dumps src then src else exclusivity_error))"
proof (intro conjI allI)
  fix kv
  show "validate_data_exclusivity dumps (JDict kv) =
            (\<not> (\<exists>marker\<in>set prohibited_spaces. contains_ci (dumps (JDict kv)) marker))"
    by (simp add: validate_data_exclusivity_def scan_prohibited_iff)
       (metis contains_ci_sublist prohibited_lower)
next
  show "map fst (validate_sources dumps data_sources) = map fst data_sources"
    unfolding validate_sources_def by (rule validation_loop_keys) simp
next
  show "\<forall>(name, src)\<in>set data_sources.
            map_of (validate_sources dumps data_sources) name =
              Some (if validate_data_exclusivity dumps src then src else exclusivity_error)"
  proof clarify
    fix name src assume mem: "(name, src) \<in> set data_sources"
    with keys have look: "map_of data_sources name = Some src" by simp
    show "map_of (validate_sources dumps data_sources) name =
              Some (if validate_data_exclusivity dumps src then src else exclusivity_error)"
      unfolding validate_sources_def validation_loop_lookup[OF keys] look
      using validate_falsy[of dumps src] empty by auto
  qed
qed

theorem exclusivity_validation_witness:
  "demo_dumps (JDict []) = ''{}'' \<and> distinct (map fst demo_sources) \<and>
   \<not> validate_data_exclusivity demo_dumps (snd (demo_sources ! 0)) \<and>
   validate_sources demo_dumps demo_sources =
     [(''conversation_data'', exclusivity_error),
      (''framework_configs'', JDict [(''files'', JList []), (''files_skipped'', JInt 0)])] \<and>
   map_of (validate_sources demo_dumps demo_sources) ''conversation_data'' = Some exclusivity_error"
proof -
  have e: "demo_dumps (JDict []) = ''{}''" by (simp add: demo_dumps_def)
  have k: "distinct (map fst demo_sources)" by (simp add: demo_sources_def)
  have bad: "\<not> validate_data_exclusivity demo_dumps (snd (demo_sources ! 0))"
    by code_simp
  have v: "validate_sources demo_dumps demo_sources =
     [(''conversation_data'', exclusivity_error),
      (''framework_configs'', JDict [(''files'', JList []), (''files_skipped'', JInt 0)])]"
    by code_simp
  have m: "(''conversation_data'', snd (demo_sources ! 0)) \<in> set demo_sources"
    by (simp add: demo_sources_def)
  from exclusivity_validation[of demo_dumps demo_sources] e k m bad
  have "map_of (validate_sources demo_dumps demo_sources) ''conversation_data'' = Some exclusivity_error"
    by fastforce
  with e k bad v show ?thesis by simp
qed

section \<open>Properties of the bundle checksum\<close>

lemma sort_mset_cong: "mset l1 = mset l2 \<Longrightarrow> sort l1 = sort (l2::'a::linorder list)"
  by (metis mset_sort properties_for_sort sorted_sort)

lemma checksum_loop_readable:
  "\<forall>p\<in>set ps. is_file p \<longrightarrow> read_bytes p \<noteq> None \<Longrightarrow>
   checksum_loop is_file read_bytes ps msg =
     Inr (msg @ concat (map (\<lambda>p. path_str p @ the (read_bytes p)) (filter is_file ps)))"
  by (induction ps arbitrary: msg) auto

lemma checksum_loop_cong:
  "\<forall>p\<in>set ps. is_file1 p = is_file2 p \<and> (is_file1 p \<longrightarrow> read1 p = read2 p) \<Longrightarrow>
   checksum_loop is_file1 read1 ps msg = checksum_loop is_file2 read2 ps msg"
  by (induction ps arbitrary: msg) (auto split: option.splits)

text \<open>
  Claim C8. The bundle checksum is one hash over the message made, for the files of the
  bundle directory in sorted path order, of each relative path followed by the content of
  the file. Two listings of the same paths in different orders, over bundles that agree
  on which paths are files and on their content, give the same checksum.
\<close>

theorem checksum_deterministic:
  "(mset listing1 = mset listing2 \<and>
    (\<forall>p\<in>set listing1. is_file1 p = is_file2 p \<and> (is_file1 p \<longrightarrow> read1 p = read2 p)) \<longrightarrow>
      calculate_compilation_checksum sha is_file1 read1 listing1 =
      calculate_compilation_checksum sha is_file2 read2 listing2) \<and>
   ((\<forall>p\<in>set listing1. is_file1 p \<longrightarrow> read1 p \<noteq> None) \<longrightarrow>
      calculate_compilation_checksum sha is_file1 read1 listing1 =
        Inr (sha (concat (map (\<lambda>p. path_str p @ the (read1 p)) (filter is_file1 (sort listing1))))))"
proof (intro conjI impI)
  assume a: "mset listing1 = mset listing2 \<and>
    (\<forall>p\<in>set listing1. is_file1 p = is_file2 p \<and> (is_file1 p \<longrightarrow> read1 p = read2 p))"
  then have "mset listing1 = mset listing2" by (rule conjunct1)
  then have s: "sort listing1 = sort listing2" by (rule sort_mset_cong)
  from a have "\<forall>p\<in>set (sort listing1). is_file1 p = is_file2 p \<and> (is_file1 p \<longrightarrow> read1 p = read2 p)"
    by simp
  from checksum_loop_cong[OF this] s
  show "calculate_compilation_checksum sha is_file1 read1 listing1 =
      calculate_compilation_checksum sha is_file2 read2 listing2"
    by (simp add: calculate_compilation_checksum_def)
next
  assume "\<forall>p\<in>set listing1. is_file1 p \<longrightarrow> read1 p \<noteq> None"
  then have "\<forall>p\<in>set (sort listing1). is_file1 p \<longrightarrow> read1 p \<noteq> None" by simp
  from checksum_loop_readable[OF this]
  show "calculate_compilation_checksum sha is_file1 read1 listing1 =
        Inr (sha (concat (map (\<lambda>p. path_str p @ the (read1 p)) (filter is_file1 (sort listing1)))))"
    by (simp add: calculate_compilation_checksum_def)
qed

theorem checksum_deterministic_witness:
  "mset listing_a = mset listing_b \<and> listing_a \<noteq> listing_b \<and>
   calculate_compilation_checksum (\<lambda>s. ''sha:'' @ s) (\<lambda>p. p \<noteq> [''copilot_logs'']) demo_bundle listing_a
   = calculate_compilation_checksum (\<lambda>s. ''sha:'' @ s) (\<lambda>p. p \<noteq> [''copilot_logs'']) demo_bundle listing_b \<and>
   calculate_compilation_checksum (\<lambda>s. ''sha:'' @ s) (\<lambda>p. p \<noteq> [''copilot_logs'']) demo_bundle listing_b
   = Inr ''sha:copilot_logs/a.log[FRAMEWORK] startedcopilot_logs/b.log[FRAMEWORK] donemanifest.json{}''"
proof -
  have m: "mset listing_a = mset listing_b"
    by (simp add: listing_a_def listing_b_def)
  have n: "listing_a \<noteq> listing_b"
    by (simp add: listing_a_def listing_b_def)
  have v: "calculate_compilation_checksum (\<lambda>s. ''sha:'' @ s) (\<lambda>p. p \<noteq> [''copilot_logs'']) demo_bundle listing_a
     = Inr ''sha:copilot_logs/a.log[FRAMEWORK] startedcopilot_logs/b.log[FRAMEWORK] donemanifest.json{}''"
    by code_simp
  note t = checksum_deterministic[of listing_a listing_b "\<lambda>p. p \<noteq> [''copilot_logs'']"
      "\<lambda>p. p \<noteq> [''copilot_logs'']" demo_bundle demo_bundle "\<lambda>s. ''sha:'' @ s"]
  have pre: "mset listing_a = mset listing_b \<and>
      (\<forall>p\<in>set listing_a. (p \<noteq> [''copilot_logs'']) = (p \<noteq> [''copilot_logs'']) \<and>
         (p \<noteq> [''copilot_logs''] \<longrightarrow> demo_bundle p = demo_bundle p))"
    using m by simp
  have eq: "calculate_compilation_checksum (\<lambda>s. ''sha:'' @ s) (\<lambda>p. p \<noteq> [''copilot_logs'']) demo_bundle listing_a
   = calculate_compilation_checksum (\<lambda>s. ''sha:'' @ s) (\<lambda>p. p \<noteq> [''copilot_logs'']) demo_bundle listing_b"
    by (rule mp[OF conjunct1[OF t] pre])
  have vb: "calculate_compilation_checksum (\<lambda>s. ''sha:'' @ s) (\<lambda>p. p \<noteq> [''copilot_logs'']) demo_bundle listing_b
     = Inr ''sha:copilot_logs/a.log[FRAMEWORK] startedcopilot_logs/b.log[FRAMEWORK] donemanifest.json{}''"
    using eq v by (simp only:)
  show ?thesis by (intro conjI m n eq vb)
qed


section \<open>Properties of the checkpoint store and the gate\<close>

lemma temp_file_name: "with_suffix checkpoint_file ''.tmp'' = ''last-run-checkpoint.tmp''"
  by (simp add: with_suffix_def checkpoint_file_def)

lemma temp_file_neq: "with_suffix checkpoint_file ''.tmp'' \<noteq> checkpoint_file"
  by (simp add: temp_file_name) (simp add: checkpoint_file_def)

lemma gate_fields:
  "should_process_file lib fs c p = (b, c') \<Longrightarrow>
     checkpoint c' = checkpoint c \<and> compilation_date c' = compilation_date c \<and>
     week_id c' = week_id c \<and> space_name c' = space_name c"
  by (auto simp: should_process_file_def Let_def split: if_splits)




lemma load_after_save:
  "\<not> tmp_open_fails io \<Longrightarrow> \<not> tmp_write_fails io \<Longrightarrow> \<not> replace_fails io \<Longrightarrow>
   load_checkpoint (save_checkpoint io new d) = new"
  by (simp add: save_checkpoint_def save_checkpoint_steps_def Let_def replace_file_def
        load_checkpoint_def)






lemma extends_trans: "extends a b \<Longrightarrow> extends b c \<Longrightarrow> extends a c"
  unfolding extends_def by auto













text \<open>
  Claim C5. Every state of the disk that \<open>_save_checkpoint\<close> passes through, and hence
  every state an interruption can leave behind, either has the checkpoint file exactly as
  before the save (so that loading it gives the previous checkpoint) or is the final state,
  reached by the single replace of the completely written temporary file, in which the
  checkpoint file holds the complete new checkpoint. The temporary file is a different
  path, and a save in which nothing fails is exactly: open the temporary file, write it
  completely, replace the checkpoint file by it.
\<close>

theorem save_checkpoint_crash_safe:
  "with_suffix checkpoint_file ''.tmp'' \<noteq> checkpoint_file \<and>
   (\<forall>d' \<in> set (d # save_checkpoint_steps io new d).
      (d' checkpoint_file = d checkpoint_file \<and> load_checkpoint d' = load_checkpoint d)
    \<or> (d' = save_checkpoint io new d \<and> d' checkpoint_file = Some (Complete new)
        \<and> load_checkpoint d' = new
        \<and> \<not> tmp_open_fails io \<and> \<not> tmp_write_fails io \<and> \<not> replace_fails io)) \<and>
   (\<not> tmp_open_fails io \<and> \<not> tmp_write_fails io \<and> \<not> replace_fails io \<longrightarrow>
      save_checkpoint_steps io new d =
        [d(with_suffix checkpoint_file ''.tmp'' \<mapsto> Partial),
         d(with_suffix checkpoint_file ''.tmp'' \<mapsto> Complete new),
         (d(with_suffix checkpoint_file ''.tmp'' := None))(checkpoint_file \<mapsto> Complete new)])"
proof (intro conjI)
  show "with_suffix checkpoint_file ''.tmp'' \<noteq> checkpoint_file"
    by (rule temp_file_neq)
  show "\<forall>d' \<in> set (d # save_checkpoint_steps io new d).
      (d' checkpoint_file = d checkpoint_file \<and> load_checkpoint d' = load_checkpoint d)
    \<or> (d' = save_checkpoint io new d \<and> d' checkpoint_file = Some (Complete new)
        \<and> load_checkpoint d' = new
        \<and> \<not> tmp_open_fails io \<and> \<not> tmp_write_fails io \<and> \<not> replace_fails io)"
    using temp_file_neq
    by (auto simp: save_checkpoint_steps_def save_checkpoint_def Let_def replace_file_def
          load_checkpoint_def)
  show "\<not> tmp_open_fails io \<and> \<not> tmp_write_fails io \<and> \<not> replace_fails io \<longrightarrow>
      save_checkpoint_steps io new d =
        [d(with_suffix checkpoint_file ''.tmp'' \<mapsto> Partial),
         d(with_suffix checkpoint_file ''.tmp'' \<mapsto> Complete new),
         (d(with_suffix checkpoint_file ''.tmp'' := None))(checkpoint_file \<mapsto> Complete new)]"
    by (simp add: save_checkpoint_steps_def Let_def replace_file_def)
qed


section \<open>Properties of the copying loops\<close>

lemma copy2_resolve: "resolve (copy2 fs a b) = resolve fs"
  by (simp add: copy2_def)

lemma process_file_info_step:
  assumes "process_file_info io sn sd fi st = (r, st')"
  shows "resolve (cs_fs st') = resolve (cs_fs st) \<and>
         (\<exists>nc nr. copies st' = copies st @ nc \<and> copied_files st' = copied_files st @ nr \<and>
            (\<forall>cp\<in>set nc. justified (resolve (cs_fs st)) sd [fi] cp \<and>
               (r = None \<longrightarrow> recorded sn nr cp)))"
proof (cases fi)
  case (JDict kv)
  show ?thesis
  proof (cases "map_of kv ''error'' \<noteq> None \<or>
      (case map_of kv ''status'' of None \<Rightarrow> JStr ''unknown'' | Some status \<Rightarrow> status)
                    \<notin> set [JStr ''new_or_changed'', JStr ''processed'']")
    case True
    with assms JDict have "st' = st" by (auto simp: process_file_info_def split: if_splits)
    then show ?thesis by simp
  next
    case False
    then have ok: "map_of kv ''error'' = None"
      "map_of kv ''status'' = Some (JStr ''new_or_changed'') \<or> map_of kv ''status'' = Some (JStr ''processed'')"
      by (auto split: option.splits)
    show ?thesis
    proof (cases "map_of kv ''path''")
      case None
      with assms JDict False have "st' = st" by (auto simp: process_file_info_def)
      then show ?thesis by simp
    next
      case (Some pj)
      show ?thesis
      proof (cases pj)
        case (JStr src)
        let ?dst = "joinpath sd (path_name src)"
        show ?thesis
        proof (cases "path_exists (cs_fs st) src \<and> map_of kv ''size'' \<noteq> None \<and>
                  resolve (cs_fs st) src \<noteq> resolve (cs_fs st) ?dst \<and> \<not> copy_fails io src")
          case no: False
          with assms JDict False Some JStr have "st' = st"
            by (auto simp: process_file_info_def Let_def split: if_splits)
          then show ?thesis by simp
        next
          case yes: True
          let ?st1 = "st\<lparr>cs_fs := copy2 (cs_fs st) src ?dst, copies := copies st @ [(src, ?dst)]\<rparr>"
          have j: "justified (resolve (cs_fs st)) sd [fi] (src, ?dst)"
            unfolding justified_def using JDict ok Some JStr yes by auto
          show ?thesis
          proof (cases "map_of kv ''hash''")
            case None
            with assms JDict False Some JStr yes have "st' = ?st1" "r \<noteq> None"
              by (auto simp: process_file_info_def Let_def)
            with j show ?thesis by (auto simp: copy2_resolve)
          next
            case h: (Some h)
            let ?rec = "JDict [(''original_path'', JStr src),
                               (''compiled_path'', JStr (joinpath sn (path_name src))),
                               (''size'', the (map_of kv ''size'')), (''hash'', h)]"
            from assms JDict False Some JStr yes h
            have "copies st' = copies st @ [(src, ?dst)]"
              "copied_files st' = copied_files st @ [?rec]"
              "resolve (cs_fs st') = resolve (cs_fs st)"
              by (auto simp: process_file_info_def Let_def copy2_resolve split: option.splits json.splits)
            moreover have "recorded sn [?rec] (src, ?dst)"
              unfolding recorded_def by auto
            ultimately show ?thesis using j by auto
          qed
        qed
      qed (use assms JDict False Some in \<open>auto simp: process_file_info_def\<close>)
    qed
  qed
qed (use assms in \<open>auto simp: process_file_info_def\<close>)


lemma justified_mono:
  "justified res sd fis cp \<Longrightarrow> set fis \<subseteq> set fis' \<Longrightarrow> justified res sd fis' cp"
  unfolding justified_def by blast

lemma recorded_mono:
  "recorded sn recs cp \<Longrightarrow> set recs \<subseteq> set recs' \<Longrightarrow> recorded sn recs' cp"
  unfolding recorded_def by blast

lemma process_files_steps:
  "process_files io sn sd fis st = (r, st') \<Longrightarrow>
   resolve (cs_fs st') = resolve (cs_fs st) \<and>
   (\<exists>nc nr. copies st' = copies st @ nc \<and> copied_files st' = copied_files st @ nr \<and>
      (\<forall>cp\<in>set nc. justified (resolve (cs_fs st)) sd fis cp \<and>
         (r = None \<longrightarrow> recorded sn nr cp)))"
proof (induction fis arbitrary: st)
  case Nil
  then show ?case by simp
next
  case (Cons fi fis)
  obtain r1 st1 where one: "process_file_info io sn sd fi st = (r1, st1)" by (rule prod.exhaust)
  from process_file_info_step[OF one] obtain nc1 nr1 where
    s1: "resolve (cs_fs st1) = resolve (cs_fs st)" "copies st1 = copies st @ nc1"
      "copied_files st1 = copied_files st @ nr1"
      "\<forall>cp\<in>set nc1. justified (resolve (cs_fs st)) sd [fi] cp \<and> (r1 = None \<longrightarrow> recorded sn nr1 cp)"
    by blast
  have j1: "\<forall>cp\<in>set nc1. justified (resolve (cs_fs st)) sd (fi # fis) cp"
    using s1(4) by (auto intro: justified_mono)
  show ?case
  proof (cases r1)
    case (Some e)
    with Cons.prems one have "r = Some e" "st' = st1" by simp_all
    with s1 j1 show ?thesis by auto
  next
    case None
    with Cons.prems one have rest: "process_files io sn sd fis st1 = (r, st')" by simp
    from Cons.IH[OF rest] obtain nc2 nr2 where
      s2: "resolve (cs_fs st') = resolve (cs_fs st1)" "copies st' = copies st1 @ nc2"
        "copied_files st' = copied_files st1 @ nr2"
        "\<forall>cp\<in>set nc2. justified (resolve (cs_fs st1)) sd fis cp \<and> (r = None \<longrightarrow> recorded sn nr2 cp)"
      by blast
    have a: "copies st' = copies st @ (nc1 @ nc2)" using s1 s2 by simp
    have b: "copied_files st' = copied_files st @ (nr1 @ nr2)" using s1 s2 by simp
    have c: "\<forall>cp\<in>set (nc1 @ nc2). justified (resolve (cs_fs st)) sd (fi # fis) cp \<and>
         (r = None \<longrightarrow> recorded sn (nr1 @ nr2) cp)"
    proof
      fix cp assume "cp \<in> set (nc1 @ nc2)"
      then consider "cp \<in> set nc1" | "cp \<in> set nc2" by auto
      then show "justified (resolve (cs_fs st)) sd (fi # fis) cp \<and>
         (r = None \<longrightarrow> recorded sn (nr1 @ nr2) cp)"
      proof cases
        case 1
        with s1(4) None j1 show ?thesis by (auto intro: recorded_mono)
      next
        case 2
        with s2(4) s1(1) show ?thesis by (auto intro: recorded_mono justified_mono)
      qed
    qed
    from a b c s1(1) s2(1) show ?thesis by metis
  qed
qed


lemma from_source_mono:
  "from_source res cd ds sn cp \<Longrightarrow> set ds \<subseteq> set ds' \<Longrightarrow> from_source res cd ds' sn cp"
  unfolding from_source_def by blast

lemma process_sources_steps:
  "process_sources io cd ds (st, man) = (r, st', man') \<Longrightarrow> distinct (map fst ds) \<Longrightarrow>
   resolve (cs_fs st') = resolve (cs_fs st) \<and>
   (\<forall>k. k \<notin> fst ` set ds \<longrightarrow> map_of man' k = map_of man k) \<and>
   (\<exists>nc. copies st' = copies st @ nc \<and>
      (\<forall>cp\<in>set nc. \<exists>sn. from_source (resolve (cs_fs st)) cd ds sn cp \<and>
         (r = None \<longrightarrow> in_manifest sn man' cp)))"
proof (induction ds arbitrary: st man)
  case Nil
  then show ?case by simp
next
  case (Cons src ds)
  obtain sn sd where src: "src = (sn, sd)" by (cases src)
  from Cons.prems(2) src have dist: "distinct (map fst ds)" and fresh: "sn \<notin> fst ` set ds"
    by auto
  have skip: ?case if rest: "process_sources io cd ds (st, man) = (r, st', man')"
  proof -
    from Cons.IH[OF rest dist] obtain nc where
      ih: "resolve (cs_fs st') = resolve (cs_fs st)"
        "\<forall>k. k \<notin> fst ` set ds \<longrightarrow> map_of man' k = map_of man k"
        "copies st' = copies st @ nc"
        "\<forall>cp\<in>set nc. \<exists>sn. from_source (resolve (cs_fs st)) cd ds sn cp \<and>
           (r = None \<longrightarrow> in_manifest sn man' cp)"
      by blast
    have "\<forall>cp\<in>set nc. \<exists>sn. from_source (resolve (cs_fs st)) cd (src # ds) sn cp \<and>
           (r = None \<longrightarrow> in_manifest sn man' cp)"
      using ih(4) by (meson from_source_mono set_subset_Cons)
    with ih(1-3) show ?thesis by auto
  qed
  have stop: ?case if "st' = st" "man' = man" "r \<noteq> None"
    using that by simp
  show ?case
  proof (cases sd)
    case (JDict kvs)
    show ?thesis
    proof (cases "map_of kvs ''files''")
      case None
      with Cons.prems(1) src JDict show ?thesis by (intro skip) simp
    next
      case (Some fj)
      show ?thesis
      proof (cases fj)
        case (JList fis)
        let ?dir = "joinpath cd sn"
        show ?thesis
        proof (cases "mkdir_fails io ?dir")
          case True
          with Cons.prems(1) src JDict Some JList show ?thesis
            by (intro stop) (auto simp: Let_def)
        next
          case False
          obtain r1 st1 where files: "process_files io sn ?dir fis (st\<lparr>copied_files := []\<rparr>) = (r1, st1)"
            by (rule prod.exhaust)
          from process_files_steps[OF files] obtain nc1 nr1 where
            s1: "resolve (cs_fs st1) = resolve (cs_fs st)" "copies st1 = copies st @ nc1"
              "copied_files st1 = nr1"
              "\<forall>cp\<in>set nc1. justified (resolve (cs_fs st)) ?dir fis cp \<and>
                 (r1 = None \<longrightarrow> recorded sn nr1 cp)"
            by auto
          have fs1: "\<forall>cp\<in>set nc1. from_source (resolve (cs_fs st)) cd (src # ds) sn cp"
            unfolding from_source_def using s1(4) src JDict Some JList by auto
          show ?thesis
          proof (cases r1)
            case e: (Some e)
            with Cons.prems(1) src JDict Some JList False files
            have "r = Some e" "st' = st1" "man' = man" by (simp_all add: Let_def)
            with s1 fs1 show ?thesis by auto
          next
            case ok: None
            let ?man1 = "AList.update sn
                (JDict [(''files_count'', JInt (int (length (copied_files st1)))),
                        (''total_size'', JInt (sum_list (map entry_size (copied_files st1)))),
                        (''files'', JList (copied_files st1))]) man"
            from Cons.prems(1) src JDict Some JList False files ok
            have rest: "process_sources io cd ds (st1, ?man1) = (r, st', man')"
              by (simp add: Let_def)
            from Cons.IH[OF rest dist] obtain nc2 where
              ih: "resolve (cs_fs st') = resolve (cs_fs st1)"
                "\<forall>k. k \<notin> fst ` set ds \<longrightarrow> map_of man' k = map_of ?man1 k"
                "copies st' = copies st1 @ nc2"
                "\<forall>cp\<in>set nc2. \<exists>sn. from_source (resolve (cs_fs st1)) cd ds sn cp \<and>
                   (r = None \<longrightarrow> in_manifest sn man' cp)"
              by blast
            have look: "map_of man' sn =
                Some (JDict [(''files_count'', JInt (int (length (copied_files st1)))),
                        (''total_size'', JInt (sum_list (map entry_size (copied_files st1)))),
                        (''files'', JList (copied_files st1))])"
              using ih(2) fresh by (simp add: update_conv')
            have m1: "\<forall>cp\<in>set nc1. in_manifest sn man' cp"
              unfolding in_manifest_def using look s1(3,4) ok by auto
            have frame: "\<forall>k. k \<notin> fst ` set (src # ds) \<longrightarrow> map_of man' k = map_of man k"
              using ih(2) src by (simp add: update_conv')
            have all: "\<forall>cp\<in>set (nc1 @ nc2). \<exists>sn. from_source (resolve (cs_fs st)) cd (src # ds) sn cp \<and>
                 (r = None \<longrightarrow> in_manifest sn man' cp)"
            proof
              fix cp assume "cp \<in> set (nc1 @ nc2)"
              then consider "cp \<in> set nc1" | "cp \<in> set nc2" by auto
              then show "\<exists>sn. from_source (resolve (cs_fs st)) cd (src # ds) sn cp \<and>
                 (r = None \<longrightarrow> in_manifest sn man' cp)"
              proof cases
                case 1
                with fs1 m1 show ?thesis by blast
              next
                case 2
                with ih(4) s1(1) show ?thesis
                  by (metis from_source_mono set_subset_Cons)
              qed
            qed
            have "copies st' = copies st @ (nc1 @ nc2)" using ih(3) s1(2) by simp
            with all frame ih(1) s1(1) show ?thesis by metis
          qed
        qed
      qed ((rule stop; use Cons.prems(1) src JDict Some in auto)+)
    qed
  qed ((rule skip, use Cons.prems(1) src in simp)+)
qed

text \<open>
  Claim C7. Every call of \<open>copy2\<close> that \<open>create_compilation\<close> makes comes from an entry
  of some source's \<open>files\<close> that has no \<open>error\<close> field, whose status is
  \<open>new_or_changed\<close> or \<open>processed\<close>, and whose resolved path differs from the
  resolved destination (the file name under the source's directory of the bundle). When
  \<open>create_compilation\<close> returns, the manifest it wrote lists, under that source, an
  entry with \<open>original_path\<close>, \<open>compiled_path\<close>, \<open>size\<close> and \<open>hash\<close> for the copy.
\<close>

theorem copy_rules:
  assumes run: "create_compilation lib io c data_sources fs w = (res, fs', w')"
    and keys: "distinct (map fst data_sources)"
  shows "\<exists>new_copies. copy_log w' = copy_log w @ new_copies \<and>
     (\<forall>(src, dst)\<in>set new_copies. \<exists>source_name kvs file_infos kv.
         (source_name, JDict kvs) \<in> set data_sources \<and>
         map_of kvs ''files'' = Some (JList file_infos) \<and>
         JDict kv \<in> set file_infos \<and>
         map_of kv ''path'' = Some (JStr src) \<and>
         map_of kv ''error'' = None \<and>
         (map_of kv ''status'' = Some (JStr ''new_or_changed'') \<or>
          map_of kv ''status'' = Some (JStr ''processed'')) \<and>
         dst = joinpath (joinpath (joinpath (joinpath (cwd fs) ''human-ai-framework'')
                                    (''week-'' @ week_id c)) source_name) (path_name src) \<and>
         resolve fs src \<noteq> resolve fs dst \<and>
         (\<forall>dir. res = Inr dir \<longrightarrow>
            (\<exists>man recs size h.
               manifests w' = manifests w @ [(joinpath dir ''manifest.json'', make_manifest lib c man)] \<and>
               map_of man source_name =
                 Some (JDict [(''files_count'', JInt (int (length recs))),
                              (''total_size'', JInt (sum_list (map entry_size recs))),
                              (''files'', JList recs)]) \<and>
               JDict [(''original_path'', JStr src),
                      (''compiled_path'', JStr (joinpath source_name (path_name src))),
                      (''size'', size), (''hash'', h)] \<in> set recs)))"
proof -
  let ?cd = "joinpath (joinpath (cwd fs) ''human-ai-framework'') (''week-'' @ week_id c)"
  let ?st0 = "\<lparr>cs_fs = fs, copies = [], copied_files = [], total_files = 0, total_size = 0\<rparr>"
  show ?thesis
  proof (cases "mkdir_fails io ?cd")
    case True
    with run have "w' = w" by (simp add: create_compilation_def Let_def)
    then show ?thesis by simp
  next
    case False
    obtain r st man where ps: "process_sources io ?cd data_sources (?st0, []) = (r, st, man)"
      by (rule prod_cases3)
    from process_sources_steps[OF ps keys] obtain nc where
      nc: "copies st = nc"
        "\<forall>cp\<in>set nc. \<exists>sn. from_source (resolve fs) ?cd data_sources sn cp \<and>
           (r = None \<longrightarrow> in_manifest sn man cp)"
      by auto
    have log: "copy_log w' = copy_log w @ nc"
      using run False ps nc(1)
      by (auto simp: create_compilation_def Let_def split: if_splits option.splits sum.splits)
    have man: "r = None \<and> manifests w' = manifests w @ [(joinpath dir ''manifest.json'', make_manifest lib c man)]"
      if "res = Inr dir" for dir
      using run False ps that
      by (auto simp: create_compilation_def Let_def split: if_splits option.splits sum.splits)
    have "\<exists>source_name kvs file_infos kv.
         (source_name, JDict kvs) \<in> set data_sources \<and>
         map_of kvs ''files'' = Some (JList file_infos) \<and>
         JDict kv \<in> set file_infos \<and>
         map_of kv ''path'' = Some (JStr src) \<and>
         map_of kv ''error'' = None \<and>
         (map_of kv ''status'' = Some (JStr ''new_or_changed'') \<or>
          map_of kv ''status'' = Some (JStr ''processed'')) \<and>
         dst = joinpath (joinpath ?cd source_name) (path_name src) \<and>
         resolve fs src \<noteq> resolve fs dst \<and>
         (\<forall>dir. res = Inr dir \<longrightarrow>
            (\<exists>man recs size h.
               manifests w' = manifests w @ [(joinpath dir ''manifest.json'', make_manifest lib c man)] \<and>
               map_of man source_name =
                 Some (JDict [(''files_count'', JInt (int (length recs))),
                              (''total_size'', JInt (sum_list (map entry_size recs))),
                              (''files'', JList recs)]) \<and>
               JDict [(''original_path'', JStr src),
                      (''compiled_path'', JStr (joinpath source_name (path_name src))),
                      (''size'', size), (''hash'', h)] \<in> set recs))"
      if mem: "(src, dst) \<in> set nc" for src dst
    proof -
      from nc(2) mem obtain sn where
        fs: "from_source (resolve fs) ?cd data_sources sn (src, dst)"
        and im: "r = None \<longrightarrow> in_manifest sn man (src, dst)"
        by blast
      from fs obtain kvs fis kv where
        j: "(sn, JDict kvs) \<in> set data_sources" "map_of kvs ''files'' = Some (JList fis)"
          "JDict kv \<in> set fis" "map_of kv ''path'' = Some (JStr src)" "map_of kv ''error'' = None"
          "map_of kv ''status'' = Some (JStr ''new_or_changed'') \<or>
           map_of kv ''status'' = Some (JStr ''processed'')"
          "dst = joinpath (joinpath ?cd sn) (path_name src)" "resolve fs src \<noteq> resolve fs dst"
        unfolding from_source_def justified_def by auto
      have rec: "\<exists>man recs size h.
               manifests w' = manifests w @ [(joinpath dir ''manifest.json'', make_manifest lib c man)] \<and>
               map_of man sn =
                 Some (JDict [(''files_count'', JInt (int (length recs))),
                              (''total_size'', JInt (sum_list (map entry_size recs))),
                              (''files'', JList recs)]) \<and>
               JDict [(''original_path'', JStr src),
                      (''compiled_path'', JStr (joinpath sn (path_name src))),
                      (''size'', size), (''hash'', h)] \<in> set recs"
        if "res = Inr dir" for dir
      proof -
        from man[OF that] im have "in_manifest sn man (src, dst)" by simp
        then obtain recs size h where
          "map_of man sn = Some (JDict [(''files_count'', JInt (int (length recs))),
                              (''total_size'', JInt (sum_list (map entry_size recs))),
                              (''files'', JList recs)])"
          "JDict [(''original_path'', JStr src),
                  (''compiled_path'', JStr (joinpath sn (path_name src))),
                  (''size'', size), (''hash'', h)] \<in> set recs"
          unfolding in_manifest_def recorded_def by auto
        with man[OF that] show ?thesis by blast
      qed
      from j rec show ?thesis by blast
    qed
    with log show ?thesis by blast
  qed
qed


section \<open>The checkpoint save within a run\<close>

lemma load_after_failed_save:
  "tmp_open_fails io \<or> tmp_write_fails io \<or> replace_fails io \<Longrightarrow>
   load_checkpoint (save_checkpoint io new d) = load_checkpoint d \<and>
   save_checkpoint io new d checkpoint_file = d checkpoint_file"
  using temp_file_neq
  by (auto simp: save_checkpoint_steps_def save_checkpoint_def Let_def load_checkpoint_def)

lemma create_compilation_failure_keeps_checkpoint:
  "isl (fst (create_compilation lib io c data_sources fs w)) \<Longrightarrow>
   ckpt_disk (snd (snd (create_compilation lib io c data_sources fs w))) = ckpt_disk w"
  by (auto simp: create_compilation_def Let_def split: if_splits prod.splits option.splits sum.splits)

lemma create_compilation_raises:
  "manifest_write_fails io \<or> isl (checksum_result io) \<or> db_update_fails io \<Longrightarrow>
   isl (fst (create_compilation lib io c data_sources fs w))"
  by (auto simp: create_compilation_def Let_def split: if_splits prod.splits option.splits sum.splits)

lemma create_compilation_success:
  "create_compilation lib io c data_sources fs w = (Inr dir, fs', w') \<Longrightarrow>
   ckpt_disk w' = save_checkpoint io (new_checkpoint c) (ckpt_disk w)"
  by (auto simp: create_compilation_def Let_def split: if_splits prod.splits option.splits sum.splits)

lemma cleanup_loop_ckpt: "ckpt_disk (snd (cleanup_loop io weeks w)) = ckpt_disk w"
  by (induction weeks arbitrary: w) auto

lemma cleanup_ckpt: "ckpt_disk (snd (cleanup_old_compilations lib io c w)) = ckpt_disk w"
  by (simp add: cleanup_old_compilations_def cleanup_loop_ckpt)

lemma main_failure_keeps_checkpoint:
  assumes "isl (fst (create_compilation lib io c data_sources fs w))"
    and "init_compiler lib space now (ckpt_disk w) = Inr c0"
    and "collect_framework_data lib fs ls c0 = (data_sources, c)"
  shows "(\<exists>e. fst (main lib io ls space now fs w) = Exit1 e) \<and>
         ckpt_disk (snd (snd (main lib io ls space now fs w))) = ckpt_disk w"
proof (cases "init_db_fails io")
  case True
  with assms show ?thesis by (simp add: main_def)
next
  case False
  obtain r fs' w' where cc: "create_compilation lib io c data_sources fs w = (r, fs', w')"
    by (rule prod_cases3)
  with assms(1) obtain e where r: "r = Inl e" by (cases r) auto
  from create_compilation_failure_keeps_checkpoint[OF assms(1)] cc
  have "ckpt_disk w' = ckpt_disk w" by simp
  with False assms(2,3) cc r show ?thesis by (simp add: main_def)
qed

text \<open>
  Claim C2. The checkpoint is saved only after the bundle has been produced: whenever
  \<open>create_compilation\<close> raises, the checkpoint store is as it was, and when writing the
  manifest, computing the bundle checksum or updating the tracking database raises,
  \<open>create_compilation\<close> raises before the save, the run exits with status 1 and the
  persisted checkpoint is the one the run started with.
\<close>

theorem checkpoint_saved_only_after_bundle:
  "(isl (fst (create_compilation lib io c data_sources fs w)) \<longrightarrow>
      ckpt_disk (snd (snd (create_compilation lib io c data_sources fs w))) = ckpt_disk w) \<and>
   (manifest_write_fails io \<or> isl (checksum_result io) \<or> db_update_fails io \<longrightarrow>
      isl (fst (create_compilation lib io c data_sources fs w)) \<and>
      (\<exists>e. fst (main lib io ls space now fs w) = Exit1 e) \<and>
      ckpt_disk (snd (snd (main lib io ls space now fs w))) = ckpt_disk w)"
proof (intro conjI impI)
  assume "isl (fst (create_compilation lib io c data_sources fs w))"
  then show "ckpt_disk (snd (snd (create_compilation lib io c data_sources fs w))) = ckpt_disk w"
    by (rule create_compilation_failure_keeps_checkpoint)
next
  assume f: "manifest_write_fails io \<or> isl (checksum_result io) \<or> db_update_fails io"
  then show "isl (fst (create_compilation lib io c data_sources fs w))"
    by (rule create_compilation_raises)
  show "\<exists>e. fst (main lib io ls space now fs w) = Exit1 e"
  proof (cases "init_compiler lib space now (ckpt_disk w)")
    case (Inl e)
    then show ?thesis by (simp add: main_def)
  next
    case (Inr c0)
    obtain ds c' where col: "collect_framework_data lib fs ls c0 = (ds, c')" by (rule prod.exhaust)
    from main_failure_keeps_checkpoint[OF create_compilation_raises[OF f] Inr col]
    show ?thesis by simp
  qed
  show "ckpt_disk (snd (snd (main lib io ls space now fs w))) = ckpt_disk w"
  proof (cases "init_compiler lib space now (ckpt_disk w)")
    case (Inl e)
    then show ?thesis by (simp add: main_def)
  next
    case (Inr c0)
    obtain ds c' where col: "collect_framework_data lib fs ls c0 = (ds, c')" by (rule prod.exhaust)
    from main_failure_keeps_checkpoint[OF create_compilation_raises[OF f] Inr col]
    show ?thesis by simp
  qed
qed

text \<open>
  Claim C10. \<open>create_compilation\<close> writes at most one manifest, exactly one when it
  returns, and in every manifest it builds the field \<open>exclusivity_verified\<close> is
  \<open>True\<close>, whatever the collected sources are (sources replaced by the error record
  included).
\<close>

theorem manifest_exclusivity_verified:
  "create_compilation lib io c data_sources fs w = (r, fs', w') \<Longrightarrow>
   (manifests w' = manifests w \<or>
    (\<exists>p man. manifests w' = manifests w @ [(p, make_manifest lib c man)])) \<and>
   (\<forall>dir. r = Inr dir \<longrightarrow>
      (\<exists>man. manifests w' = manifests w @ [(joinpath dir ''manifest.json'', make_manifest lib c man)])) \<and>
   (\<forall>man. \<exists>kv. make_manifest lib c man = JDict kv \<and>
      map_of kv ''exclusivity_verified'' = Some (JBool True))"
  by (auto simp: create_compilation_def Let_def make_manifest_def
         split: if_splits prod.splits option.splits sum.splits)

lemma cleanup_loop_status_cong:
  "bundle_dirs w1 = bundle_dirs w2 \<Longrightarrow>
   fst (cleanup_loop io weeks w1) = fst (cleanup_loop io weeks w2)"
proof (induction weeks arbitrary: w1 w2)
  case Nil
  then show ?case by simp
next
  case (Cons week weeks)
  show ?case
  proof (cases "week \<in> set (bundle_dirs w1)")
    case True
    with Cons.prems have in2: "week \<in> set (bundle_dirs w2)" by simp
    show ?thesis
    proof (cases "rmtree_fails io week")
      case True
      with \<open>week \<in> set (bundle_dirs w1)\<close> in2 show ?thesis by simp
    next
      case False
      have "fst (cleanup_loop io weeks
                  (w1\<lparr>bundle_dirs := removeAll week (bundle_dirs w1), db := AList.delete week (db w1)\<rparr>)) =
            fst (cleanup_loop io weeks
                  (w2\<lparr>bundle_dirs := removeAll week (bundle_dirs w2), db := AList.delete week (db w2)\<rparr>))"
        by (rule Cons.IH) (simp add: Cons.prems)
      with True in2 False show ?thesis by simp
    qed
  next
    case False
    with Cons.prems have out2: "week \<notin> set (bundle_dirs w2)" by simp
    have "fst (cleanup_loop io weeks (w1\<lparr>db := AList.delete week (db w1)\<rparr>)) =
          fst (cleanup_loop io weeks (w2\<lparr>db := AList.delete week (db w2)\<rparr>))"
      by (rule Cons.IH) (simp add: Cons.prems)
    with False out2 show ?thesis by simp
  qed
qed

lemma cleanup_loop_io_cong:
  "rmtree_fails io1 = rmtree_fails io2 \<Longrightarrow> cleanup_loop io1 weeks w = cleanup_loop io2 weeks w"
  by (induction weeks arbitrary: w) auto


lemma process_file_info_cong:
  "copy_fails io1 = copy_fails io2 \<Longrightarrow>
   process_file_info io1 sn sd fi st = process_file_info io2 sn sd fi st"
  by (simp add: process_file_info_def cong: json.case_cong option.case_cong if_cong)

lemma process_files_cong:
  "copy_fails io1 = copy_fails io2 \<Longrightarrow>
   process_files io1 sn sd fis st = process_files io2 sn sd fis st"
  by (induction fis arbitrary: st)
     (auto simp: process_file_info_cong[of io1 io2] split: prod.splits option.splits)

lemma process_sources_cong:
  "copy_fails io1 = copy_fails io2 \<Longrightarrow> mkdir_fails io1 = mkdir_fails io2 \<Longrightarrow>
   process_sources io1 cd ds acc = process_sources io2 cd ds acc"
proof (induction ds arbitrary: acc)
  case Nil
  show ?case by (cases acc) simp
next
  case (Cons src ds)
  obtain sn sd where src: "src = (sn, sd)" by (cases src)
  obtain st man where acc: "acc = (st, man)" by (cases acc)
  show ?case unfolding src acc
    by (simp add: Cons.IH[OF Cons.prems] Cons.prems(2) process_files_cong[OF Cons.prems(1)]
          cong: json.case_cong option.case_cong if_cong prod.case_cong)
qed

lemma create_compilation_save_indep:
  assumes "io' = io\<lparr>tmp_open_fails := a, tmp_write_fails := b, replace_fails := r\<rparr>"
  shows "fst (create_compilation lib io' c ds fs w) = fst (create_compilation lib io c ds fs w) \<and>
         db (snd (snd (create_compilation lib io' c ds fs w))) =
           db (snd (snd (create_compilation lib io c ds fs w))) \<and>
         bundle_dirs (snd (snd (create_compilation lib io' c ds fs w))) =
           bundle_dirs (snd (snd (create_compilation lib io c ds fs w)))"
proof -
  have ps: "process_sources io' cd ds acc = process_sources io cd ds acc" for cd acc
    by (rule process_sources_cong) (simp_all add: assms)
  show ?thesis
    unfolding create_compilation_def ps
    by (simp add: assms Let_def split: prod.splits option.splits sum.splits)
qed

text \<open>
  Claim C4, as amended. Whether the run reports success does not depend on the checkpoint
  save: the exit status is the same whichever of the save's filesystem operations fail,
  because \<open>_save_checkpoint\<close> catches and logs every exception. When success is
  reported, the checkpoint store is what the save made of it: the new checkpoint when no
  operation of the save failed, the previous checkpoint otherwise.
\<close>

theorem success_independent_of_checkpoint_save:
  "fst (main lib (io\<lparr>tmp_open_fails := a, tmp_write_fails := b, replace_fails := r\<rparr>)
          ls space now fs w) = fst (main lib io ls space now fs w) \<and>
   (\<forall>s fs' w'. main lib io ls space now fs w = (Exit0 s, fs', w') \<longrightarrow>
      (\<exists>c0 ds c. init_compiler lib space now (ckpt_disk w) = Inr c0 \<and>
         collect_framework_data lib fs ls c0 = (ds, c) \<and>
         ckpt_disk w' = save_checkpoint io (new_checkpoint c) (ckpt_disk w) \<and>
         (if tmp_open_fails io \<or> tmp_write_fails io \<or> replace_fails io
          then load_checkpoint (ckpt_disk w') = load_checkpoint (ckpt_disk w) \<and>
               ckpt_disk w' checkpoint_file = ckpt_disk w checkpoint_file
          else load_checkpoint (ckpt_disk w') = new_checkpoint c)))"
proof
  let ?io' = "io\<lparr>tmp_open_fails := a, tmp_write_fails := b, replace_fails := r\<rparr>"
  show "fst (main lib ?io' ls space now fs w) = fst (main lib io ls space now fs w)"
  proof (cases "init_compiler lib space now (ckpt_disk w)")
    case (Inl e)
    then show ?thesis by (simp add: main_def)
  next
    case (Inr c0)
    obtain ds c where col: "collect_framework_data lib fs ls c0 = (ds, c)" by (rule prod.exhaust)
    obtain r1 f1 w1 where cc1: "create_compilation lib io c ds fs w = (r1, f1, w1)"
      by (rule prod_cases3)
    obtain r2 f2 w2 where cc2: "create_compilation lib ?io' c ds fs w = (r2, f2, w2)"
      by (rule prod_cases3)
    from create_compilation_save_indep[where io=io and a=a and b=b and r=r and lib=lib and c=c
        and ds=ds and fs=fs and w=w, OF refl] cc1 cc2
    have eq: "r2 = r1" "db w2 = db w1" "bundle_dirs w2 = bundle_dirs w1" by simp_all
    have "fst (cleanup_old_compilations lib ?io' c w2) = fst (cleanup_old_compilations lib io c w1)"
    proof -
      have "cleanup_loop ?io' (old_compilations lib c w2) w2 = cleanup_loop io (old_compilations lib c w2) w2"
        by (rule cleanup_loop_io_cong) simp
      moreover have "old_compilations lib c w2 = old_compilations lib c w1"
        by (simp add: old_compilations_def eq)
      moreover have "fst (cleanup_loop io (old_compilations lib c w1) w2) =
                     fst (cleanup_loop io (old_compilations lib c w1) w1)"
        by (rule cleanup_loop_status_cong) (simp add: eq)
      ultimately show ?thesis by (simp add: cleanup_old_compilations_def)
    qed
    then have cl: "(case cleanup_old_compilations lib ?io' c w2 of (Some e, w'') \<Rightarrow> Exit1 e
                     | (None, w'') \<Rightarrow> Exit0 (summary c dir ds)) =
                   (case cleanup_old_compilations lib io c w1 of (Some e, w'') \<Rightarrow> Exit1 e
                     | (None, w'') \<Rightarrow> Exit0 (summary c dir ds))" for dir
      by (cases "cleanup_old_compilations lib ?io' c w2"; cases "cleanup_old_compilations lib io c w1")
         (auto split: option.splits)
    show ?thesis
      using Inr col cc1 cc2 eq(1) cl
      by (cases r1) (auto simp: main_def split: prod.splits option.splits)
  qed
next
  show "\<forall>s fs' w'. main lib io ls space now fs w = (Exit0 s, fs', w') \<longrightarrow>
      (\<exists>c0 ds c. init_compiler lib space now (ckpt_disk w) = Inr c0 \<and>
         collect_framework_data lib fs ls c0 = (ds, c) \<and>
         ckpt_disk w' = save_checkpoint io (new_checkpoint c) (ckpt_disk w) \<and>
         (if tmp_open_fails io \<or> tmp_write_fails io \<or> replace_fails io
          then load_checkpoint (ckpt_disk w') = load_checkpoint (ckpt_disk w) \<and>
               ckpt_disk w' checkpoint_file = ckpt_disk w checkpoint_file
          else load_checkpoint (ckpt_disk w') = new_checkpoint c))"
  proof (intro allI impI)
    fix s fs' w'
    assume m: "main lib io ls space now fs w = (Exit0 s, fs', w')"
    then obtain c0 where init: "init_compiler lib space now (ckpt_disk w) = Inr c0"
      by (cases "init_compiler lib space now (ckpt_disk w)") (auto simp: main_def)
    obtain ds c where col: "collect_framework_data lib fs ls c0 = (ds, c)" by (rule prod.exhaust)
    obtain r1 f1 w1 where cc: "create_compilation lib io c ds fs w = (r1, f1, w1)"
      by (rule prod_cases3)
    from m init col cc obtain dir where r1: "r1 = Inr dir"
      by (cases r1) (auto simp: main_def split: if_splits)
    from m init col cc r1 have w': "w' = snd (cleanup_old_compilations lib io c w1)"
      by (auto simp: main_def split: if_splits prod.splits option.splits)
    have disk: "ckpt_disk w' = save_checkpoint io (new_checkpoint c) (ckpt_disk w)"
      using create_compilation_success[OF cc[unfolded r1]] w' by (simp add: cleanup_ckpt)
    have "if tmp_open_fails io \<or> tmp_write_fails io \<or> replace_fails io
          then load_checkpoint (ckpt_disk w') = load_checkpoint (ckpt_disk w) \<and>
               ckpt_disk w' checkpoint_file = ckpt_disk w checkpoint_file
          else load_checkpoint (ckpt_disk w') = new_checkpoint c"
      using disk load_after_failed_save[of io "new_checkpoint c" "ckpt_disk w"]
        load_after_save[of io "new_checkpoint c" "ckpt_disk w"]
      by auto
    with init col disk show "\<exists>c0 ds c. init_compiler lib space now (ckpt_disk w) = Inr c0 \<and>
         collect_framework_data lib fs ls c0 = (ds, c) \<and>
         ckpt_disk w' = save_checkpoint io (new_checkpoint c) (ckpt_disk w) \<and>
         (if tmp_open_fails io \<or> tmp_write_fails io \<or> replace_fails io
          then load_checkpoint (ckpt_disk w') = load_checkpoint (ckpt_disk w) \<and>
               ckpt_disk w' checkpoint_file = ckpt_disk w checkpoint_file
          else load_checkpoint (ckpt_disk w') = new_checkpoint c)"
      by blast
  qed
qed


section \<open>Retention failures\<close>




section \<open>The properties on a concrete installation\<close>


text \<open>Claim C1: the previous checkpoint has the current hash of the log, the file is
  unchanged, the run succeeds, and the checkpoint it saves has no entry for the log.\<close>

theorem unchanged_file_loses_its_entry:
  "files (load_checkpoint (ckpt_disk demo_world_tracked)) ''/w/logs/a.log'' =
     Some (calculate_file_checksum demo_lib demo_fs ''/w/logs/a.log'') \<and>
   fst (main demo_lib demo_io demo_ls FRAMEWORK_SPACE 10000000 demo_fs demo_world_tracked) =
     Exit0 (JDict [(''status'', JStr ''success''), (''week_id'', JStr ''2025-W41''),
                   (''compilation_dir'', JStr ''/w/human-ai-framework/week-2025-W41''),
                   (''space_verified'', JStr ''HUMAN-AI-FRAMEWORK''),
                   (''files_processed'', JInt 1)]) \<and>
   files (load_checkpoint (ckpt_disk (snd (snd
      (main demo_lib demo_io demo_ls FRAMEWORK_SPACE 10000000 demo_fs demo_world_tracked)))))
     ''/w/logs/a.log'' = None"
  by code_simp

text \<open>Claim C2 when the tracking database cannot be updated.\<close>

theorem checkpoint_saved_only_after_bundle_witness:
  "db_update_fails (demo_io\<lparr>db_update_fails := True\<rparr>) \<and>
   isl (fst (create_compilation demo_lib (demo_io\<lparr>db_update_fails := True\<rparr>) demo_c1
               demo_entries demo_fs demo_world_tracked)) \<and>
   fst (main demo_lib (demo_io\<lparr>db_update_fails := True\<rparr>) demo_ls FRAMEWORK_SPACE 10000000
          demo_fs demo_world_tracked) = Exit1 (OSError ''compilations.db'') \<and>
   ckpt_disk (snd (snd (main demo_lib (demo_io\<lparr>db_update_fails := True\<rparr>) demo_ls
                           FRAMEWORK_SPACE 10000000 demo_fs demo_world_tracked))) = demo_disk"
proof -
  let ?io = "demo_io\<lparr>db_update_fails := True\<rparr>"
  have f: "db_update_fails ?io" by simp
  have x: "fst (main demo_lib ?io demo_ls FRAMEWORK_SPACE 10000000 demo_fs demo_world_tracked)
             = Exit1 (OSError ''compilations.db'')"
    by code_simp
  have d: "ckpt_disk demo_world_tracked = demo_disk" by (simp add: demo_world_tracked_def)
  note t = checkpoint_saved_only_after_bundle[of demo_lib ?io demo_c1 demo_entries demo_fs
      demo_world_tracked demo_ls FRAMEWORK_SPACE 10000000]
  from t f have
    "isl (fst (create_compilation demo_lib ?io demo_c1 demo_entries demo_fs demo_world_tracked))"
    "ckpt_disk (snd (snd (main demo_lib ?io demo_ls FRAMEWORK_SPACE 10000000 demo_fs
                             demo_world_tracked))) = ckpt_disk demo_world_tracked"
    by blast+
  with f x d show ?thesis by (simp only: simp_thms)
qed



text \<open>Claim C4 as worded fails when the temporary checkpoint file cannot be written: the
  run reports success and there is still no checkpoint.\<close>

theorem success_reported_without_checkpoint:
  "fst (main demo_lib (demo_io\<lparr>tmp_write_fails := True\<rparr>) demo_ls FRAMEWORK_SPACE 10000000
          demo_fs demo_world) =
     Exit0 (JDict [(''status'', JStr ''success''), (''week_id'', JStr ''2025-W41''),
                   (''compilation_dir'', JStr ''/w/human-ai-framework/week-2025-W41''),
                   (''space_verified'', JStr ''HUMAN-AI-FRAMEWORK''),
                   (''files_processed'', JInt 2)]) \<and>
   ckpt_disk (snd (snd (main demo_lib (demo_io\<lparr>tmp_write_fails := True\<rparr>) demo_ls
                          FRAMEWORK_SPACE 10000000 demo_fs demo_world))) checkpoint_file = None"
  by code_simp

text \<open>Claim C4 as amended, for a failing write of the temporary file.\<close>

theorem success_independent_of_checkpoint_save_witness:
  "fst (main demo_lib (demo_io\<lparr>tmp_open_fails := False, tmp_write_fails := True,
                               replace_fails := False\<rparr>)
          demo_ls FRAMEWORK_SPACE 10000000 demo_fs demo_world_tracked) =
   fst (main demo_lib demo_io demo_ls FRAMEWORK_SPACE 10000000 demo_fs demo_world_tracked) \<and>
   tmp_write_fails (demo_io\<lparr>tmp_write_fails := True\<rparr>) \<and>
   load_checkpoint (ckpt_disk (snd (snd (main demo_lib (demo_io\<lparr>tmp_write_fails := True\<rparr>)
      demo_ls FRAMEWORK_SPACE 10000000 demo_fs demo_world_tracked)))) = demo_old"
proof -
  let ?io = "demo_io\<lparr>tmp_write_fails := True\<rparr>"
  let ?m = "main demo_lib ?io demo_ls FRAMEWORK_SPACE 10000000 demo_fs demo_world_tracked"
  have a: "fst (main demo_lib (demo_io\<lparr>tmp_open_fails := False, tmp_write_fails := True,
                               replace_fails := False\<rparr>)
          demo_ls FRAMEWORK_SPACE 10000000 demo_fs demo_world_tracked) =
   fst (main demo_lib demo_io demo_ls FRAMEWORK_SPACE 10000000 demo_fs demo_world_tracked)"
    using success_independent_of_checkpoint_save[where lib=demo_lib and io=demo_io and a=False
        and b=True and r=False and ls=demo_ls and space=FRAMEWORK_SPACE and now=10000000
        and fs=demo_fs and w=demo_world_tracked]
    by (rule conjunct1)
  have f: "tmp_write_fails ?io" by simp
  have x: "fst ?m = Exit0 (JDict [(''status'', JStr ''success''), (''week_id'', JStr ''2025-W41''),
                   (''compilation_dir'', JStr ''/w/human-ai-framework/week-2025-W41''),
                   (''space_verified'', JStr ''HUMAN-AI-FRAMEWORK''),
                   (''files_processed'', JInt 1)])"
    by code_simp
  then have m: "?m = (Exit0 (JDict [(''status'', JStr ''success''), (''week_id'', JStr ''2025-W41''),
                   (''compilation_dir'', JStr ''/w/human-ai-framework/week-2025-W41''),
                   (''space_verified'', JStr ''HUMAN-AI-FRAMEWORK''),
                   (''files_processed'', JInt 1)]), fst (snd ?m), snd (snd ?m))"
    by (metis prod.collapse)
  have old: "load_checkpoint (ckpt_disk demo_world_tracked) = demo_old"
    by (simp add: demo_world_tracked_def demo_disk_def load_checkpoint_def)
  from success_independent_of_checkpoint_save[where lib=demo_lib and io="?io" and a=False
        and b=True and r=False and ls=demo_ls and space=FRAMEWORK_SPACE and now=10000000
        and fs=demo_fs and w=demo_world_tracked] m f
  have "load_checkpoint (ckpt_disk (snd (snd ?m))) = load_checkpoint (ckpt_disk demo_world_tracked)"
    by (metis (no_types, lifting))
  with a f old show ?thesis by (simp only: simp_thms)
qed

text \<open>Claim C5, for the state in which the temporary file is half written.\<close>

theorem save_checkpoint_crash_safe_witness:
  "demo_disk(''last-run-checkpoint.tmp'' \<mapsto> Partial)
     \<in> set (demo_disk # save_checkpoint_steps demo_io demo_new demo_disk) \<and>
   (demo_disk(''last-run-checkpoint.tmp'' \<mapsto> Partial)) checkpoint_file = Some (Complete demo_old) \<and>
   load_checkpoint (demo_disk(''last-run-checkpoint.tmp'' \<mapsto> Partial)) = demo_old"
proof -
  let ?d1 = "demo_disk(''last-run-checkpoint.tmp'' \<mapsto> Partial)"
  have mem: "?d1 \<in> set (demo_disk # save_checkpoint_steps demo_io demo_new demo_disk)"
    by (simp add: save_checkpoint_steps_def temp_file_name demo_io_def Let_def)
  have old: "demo_disk checkpoint_file = Some (Complete demo_old)"
    "load_checkpoint demo_disk = demo_old"
    by (simp_all add: load_checkpoint_def demo_disk_def)
  have differ: "?d1 checkpoint_file \<noteq> Some (Complete demo_new)"
    by (simp add: demo_disk_def checkpoint_file_def demo_old_def demo_new_def)
  from save_checkpoint_crash_safe[of demo_disk demo_io demo_new]
  have "\<forall>d' \<in> set (demo_disk # save_checkpoint_steps demo_io demo_new demo_disk).
      (d' checkpoint_file = demo_disk checkpoint_file \<and>
       load_checkpoint d' = load_checkpoint demo_disk)
    \<or> (d' = save_checkpoint demo_io demo_new demo_disk \<and>
        d' checkpoint_file = Some (Complete demo_new) \<and> load_checkpoint d' = demo_new \<and>
        \<not> tmp_open_fails demo_io \<and> \<not> tmp_write_fails demo_io \<and> \<not> replace_fails demo_io)"
    by blast
  from this mem
  have "(?d1 checkpoint_file = demo_disk checkpoint_file \<and>
         load_checkpoint ?d1 = load_checkpoint demo_disk) \<or>
        (?d1 = save_checkpoint demo_io demo_new demo_disk \<and>
         ?d1 checkpoint_file = Some (Complete demo_new) \<and> load_checkpoint ?d1 = demo_new \<and>
         \<not> tmp_open_fails demo_io \<and> \<not> tmp_write_fails demo_io \<and> \<not> replace_fails demo_io)"
    by (rule bspec)
  with differ have "?d1 checkpoint_file = demo_disk checkpoint_file \<and>
         load_checkpoint ?d1 = load_checkpoint demo_disk"
    by blast
  with old mem show ?thesis by (simp only: simp_thms)
qed

text \<open>Claim C7, for sources with one eligible entry among five.\<close>

theorem copy_rules_witness:
  "distinct (map fst demo_entries) \<and>
   copy_log (snd (snd (create_compilation demo_lib demo_io demo_c1 demo_entries demo_fs demo_world))) =
     [(''/w/logs/a.log'', ''/w/human-ai-framework/week-2025-W41/copilot_logs/a.log'')] \<and>
   (\<exists>source_name kvs file_infos kv.
      (source_name, JDict kvs) \<in> set demo_entries \<and>
      map_of kvs ''files'' = Some (JList file_infos) \<and>
      JDict kv \<in> set file_infos \<and>
      map_of kv ''path'' = Some (JStr ''/w/logs/a.log'') \<and>
      map_of kv ''error'' = None \<and>
      (map_of kv ''status'' = Some (JStr ''new_or_changed'') \<or>
       map_of kv ''status'' = Some (JStr ''processed'')) \<and>
      resolve demo_fs ''/w/logs/a.log'' \<noteq>
        resolve demo_fs ''/w/human-ai-framework/week-2025-W41/copilot_logs/a.log'')"
proof -
  let ?cc = "create_compilation demo_lib demo_io demo_c1 demo_entries demo_fs demo_world"
  have keys: "distinct (map fst demo_entries)" by (simp add: demo_entries_def exclusivity_error_def)
  have log: "copy_log (snd (snd ?cc)) =
     [(''/w/logs/a.log'', ''/w/human-ai-framework/week-2025-W41/copilot_logs/a.log'')]"
    by code_simp
  have cc: "?cc = (fst ?cc, fst (snd ?cc), snd (snd ?cc))" by simp
  have l0: "copy_log demo_world = []" by (simp add: demo_world_def)
  from copy_rules[OF cc keys] obtain nc where
    nc: "copy_log (snd (snd ?cc)) = copy_log demo_world @ nc"
    and all: "\<forall>(src, dst)\<in>set nc. \<exists>source_name kvs file_infos kv.
         (source_name, JDict kvs) \<in> set demo_entries \<and>
         map_of kvs ''files'' = Some (JList file_infos) \<and>
         JDict kv \<in> set file_infos \<and>
         map_of kv ''path'' = Some (JStr src) \<and>
         map_of kv ''error'' = None \<and>
         (map_of kv ''status'' = Some (JStr ''new_or_changed'') \<or>
          map_of kv ''status'' = Some (JStr ''processed'')) \<and>
         dst = joinpath (joinpath (joinpath (joinpath (cwd demo_fs) ''human-ai-framework'')
                                    (''week-'' @ week_id demo_c1)) source_name) (path_name src) \<and>
         resolve demo_fs src \<noteq> resolve demo_fs dst \<and>
         (\<forall>dir. fst ?cc = Inr dir \<longrightarrow>
            (\<exists>man recs size h.
               manifests (snd (snd ?cc)) = manifests demo_world @
                 [(joinpath dir ''manifest.json'', make_manifest demo_lib demo_c1 man)] \<and>
               map_of man source_name =
                 Some (JDict [(''files_count'', JInt (int (length recs))),
                              (''total_size'', JInt (sum_list (map entry_size recs))),
                              (''files'', JList recs)]) \<and>
               JDict [(''original_path'', JStr src),
                      (''compiled_path'', JStr (joinpath source_name (path_name src))),
                      (''size'', size), (''hash'', h)] \<in> set recs))"
    by blast
  from nc log l0 have "nc = [(''/w/logs/a.log'', ''/w/human-ai-framework/week-2025-W41/copilot_logs/a.log'')]"
    by simp
  then have "(''/w/logs/a.log'', ''/w/human-ai-framework/week-2025-W41/copilot_logs/a.log'') \<in> set nc"
    by simp
  from bspec[OF all this]
  have "\<exists>source_name kvs file_infos kv.
      (source_name, JDict kvs) \<in> set demo_entries \<and>
      map_of kvs ''files'' = Some (JList file_infos) \<and>
      JDict kv \<in> set file_infos \<and>
      map_of kv ''path'' = Some (JStr ''/w/logs/a.log'') \<and>
      map_of kv ''error'' = None \<and>
      (map_of kv ''status'' = Some (JStr ''new_or_changed'') \<or>
       map_of kv ''status'' = Some (JStr ''processed'')) \<and>
      resolve demo_fs ''/w/logs/a.log'' \<noteq>
        resolve demo_fs ''/w/human-ai-framework/week-2025-W41/copilot_logs/a.log''"
    by (simp only: prod.case) blast
  with keys log show ?thesis by (simp only: simp_thms)
qed



text \<open>Claim C10, for sources of which one failed validation.\<close>

theorem manifest_exclusivity_verified_witness:
  "map_of (validate_sources demo_dumps demo_sources) ''conversation_data'' = Some exclusivity_error \<and>
   fst (create_compilation demo_lib demo_io demo_c1 (validate_sources demo_dumps demo_sources)
          demo_fs demo_world) = Inr ''/w/human-ai-framework/week-2025-W41'' \<and>
   (\<exists>man kv. manifests (snd (snd (create_compilation demo_lib demo_io demo_c1
                  (validate_sources demo_dumps demo_sources) demo_fs demo_world))) =
              [(''/w/human-ai-framework/week-2025-W41/manifest.json'',
                make_manifest demo_lib demo_c1 man)] \<and>
      make_manifest demo_lib demo_c1 man = JDict kv \<and>
      map_of kv ''exclusivity_verified'' = Some (JBool True))"
proof -
  let ?ds = "validate_sources demo_dumps demo_sources"
  let ?cc = "create_compilation demo_lib demo_io demo_c1 ?ds demo_fs demo_world"
  have bad: "map_of ?ds ''conversation_data'' = Some exclusivity_error" by code_simp
  have r: "fst ?cc = Inr ''/w/human-ai-framework/week-2025-W41''" by code_simp
  then have cc: "?cc = (Inr ''/w/human-ai-framework/week-2025-W41'', fst (snd ?cc), snd (snd ?cc))"
    by (metis prod.collapse)
  have m0: "manifests demo_world = []" by (simp add: demo_world_def)
  have j: "joinpath ''/w/human-ai-framework/week-2025-W41'' ''manifest.json'' =
           ''/w/human-ai-framework/week-2025-W41/manifest.json''"
    by (simp add: joinpath_def)
  from manifest_exclusivity_verified[OF cc] m0 j
  obtain man where man: "manifests (snd (snd ?cc)) =
      [(''/w/human-ai-framework/week-2025-W41/manifest.json'', make_manifest demo_lib demo_c1 man)]"
    by auto
  from manifest_exclusivity_verified[OF cc]
  obtain kv where "make_manifest demo_lib demo_c1 man = JDict kv"
    "map_of kv ''exclusivity_verified'' = Some (JBool True)"
    by blast
  with bad r man show ?thesis by blast
qed

end
